theory Spec2Isabelle
  imports Complex_Main
begin

section \<open>The ListBox component (gwu/listbox.go)\<close>

subsection \<open>Run-time faults and the widget's state\<close>

text \<open>
  Go checks every slice access \<open>s[i]\<close>: an index outside \<open>0 \<le> i < len(s)\<close> raises the
  run-time panic "index out of range". The panic is a value of the model. A method
  with a pointer receiver mutates the widget in place, so what it had already written
  when it panicked stays written: a faulting mutator returns \<open>Inl (e, c)\<close>, the panic
  together with the widget as the fault left it.
\<close>

datatype error = IndexOutOfRange int nat

text \<open>
  \<open>listBoxImpl\<close> embeds \<open>compImpl\<close> and \<open>hasEnabledImpl\<close>, which are declared in other
  files of the package: they are carried as the type parameters \<open>'c\<close> and \<open>'e\<close>, and no
  function of this file looks inside them.
\<close>

record ('c, 'e) listBoxImpl =
  compImpl :: 'c
  hasEnabledImpl :: 'e
  "values" :: "string list"
  multi :: bool
  selected :: "bool list"
  rows :: int

text \<open>
  \<open>NewListBox\<close>: \<open>ci\<close> stands for \<open>newCompImpl("getSelectedIndices(this)")\<close> after
  \<open>AddSyncOnETypes(ETYPE_CHANGE)\<close> and \<open>Style().AddClass("gwu-ListBox")\<close>, and \<open>en\<close> for
  \<open>newHasEnabledImpl()\<close>; \<open>make([]bool, len(values))\<close> is all \<open>false\<close>.
\<close>

definition NewListBox :: "'c \<Rightarrow> 'e \<Rightarrow> string list \<Rightarrow> ('c, 'e) listBoxImpl" where
  "NewListBox ci en vs =
     \<lparr>compImpl = ci, hasEnabledImpl = en, values = vs, multi = False,
      selected = replicate (length vs) False, rows = 1\<rparr>"

definition Multi :: "('c, 'e) listBoxImpl \<Rightarrow> bool" where
  "Multi c = multi c"

definition SetMulti :: "('c, 'e) listBoxImpl \<Rightarrow> bool \<Rightarrow> ('c, 'e) listBoxImpl" where
  "SetMulti c m = c\<lparr>multi := m\<rparr>"

definition Rows :: "('c, 'e) listBoxImpl \<Rightarrow> int" where
  "Rows c = rows c"

definition SetRows :: "('c, 'e) listBoxImpl \<Rightarrow> int \<Rightarrow> ('c, 'e) listBoxImpl" where
  "SetRows c r = c\<lparr>rows := r\<rparr>"

text \<open>The checked read \<open>s[i]\<close> of a slice, \<open>i\<close> a Go \<open>int\<close>.\<close>

definition index :: "'a list \<Rightarrow> int \<Rightarrow> error + 'a" where
  "index s i =
     (if 0 \<le> i \<and> i < int (length s) then Inr (s ! nat i)
      else Inl (IndexOutOfRange i (length s)))"

text \<open>
  \<open>SelectedValue\<close>: \<open>for i, s := range c.selected\<close>, returning \<open>c.values[i]\<close> at the first
  \<open>s\<close> that is true, and the empty string when the loop ends.
\<close>

fun SelectedValue_loop :: "string list \<Rightarrow> nat \<Rightarrow> bool list \<Rightarrow> error + string" where
  "SelectedValue_loop vs i [] = Inr ''''"
| "SelectedValue_loop vs i (s # ss) =
     (if s then index vs (int i) else SelectedValue_loop vs (Suc i) ss)"

definition SelectedValue :: "('c, 'e) listBoxImpl \<Rightarrow> error + string" where
  "SelectedValue c = SelectedValue_loop (values c) 0 (selected c)"

text \<open>\<open>SelectedValues\<close>: the same loop, appending \<open>c.values[i]\<close> to the result.\<close>

fun SelectedValues_loop ::
  "string list \<Rightarrow> nat \<Rightarrow> bool list \<Rightarrow> string list \<Rightarrow> error + string list" where
  "SelectedValues_loop vs i [] sv = Inr sv"
| "SelectedValues_loop vs i (s # ss) sv =
     (if s then
        (case index vs (int i) of
           Inl e \<Rightarrow> Inl e
         | Inr v \<Rightarrow> SelectedValues_loop vs (Suc i) ss (sv @ [v]))
      else SelectedValues_loop vs (Suc i) ss sv)"

definition SelectedValues :: "('c, 'e) listBoxImpl \<Rightarrow> error + string list" where
  "SelectedValues c = SelectedValues_loop (values c) 0 (selected c) []"

definition Selected :: "('c, 'e) listBoxImpl \<Rightarrow> int \<Rightarrow> error + bool" where
  "Selected c i = index (selected c) i"

text \<open>\<open>SelectedIndices\<close>: the loop appends \<open>i\<close> for every \<open>s\<close> that is true.\<close>

fun SelectedIndices_loop :: "nat \<Rightarrow> bool list \<Rightarrow> int list \<Rightarrow> int list" where
  "SelectedIndices_loop i [] si = si"
| "SelectedIndices_loop i (s # ss) si =
     SelectedIndices_loop (Suc i) ss (if s then si @ [int i] else si)"

definition SelectedIndices :: "('c, 'e) listBoxImpl \<Rightarrow> int list" where
  "SelectedIndices c = SelectedIndices_loop 0 (selected c) []"

text \<open>The checked write \<open>c.selected[i] = b\<close>.\<close>

definition store :: "bool list \<Rightarrow> int \<Rightarrow> bool \<Rightarrow> (error \<times> bool list) + bool list" where
  "store s i b =
     (if 0 \<le> i \<and> i < int (length s) then Inr (s[nat i := b])
      else Inl (IndexOutOfRange i (length s), s))"

text \<open>A mutator's result on the selection vector, put back into the widget.\<close>

definition with_selected ::
  "('c, 'e) listBoxImpl \<Rightarrow> (error \<times> bool list) + bool list \<Rightarrow>
   (error \<times> ('c, 'e) listBoxImpl) + ('c, 'e) listBoxImpl" where
  "with_selected c r =
     (case r of
        Inl (e, s) \<Rightarrow> Inl (e, c\<lparr>selected := s\<rparr>)
      | Inr s \<Rightarrow> Inr (c\<lparr>selected := s\<rparr>))"

definition SetSelected ::
  "('c, 'e) listBoxImpl \<Rightarrow> int \<Rightarrow> bool \<Rightarrow>
   (error \<times> ('c, 'e) listBoxImpl) + ('c, 'e) listBoxImpl" where
  "SetSelected c i b = with_selected c (store (selected c) i b)"

text \<open>
  \<open>for i, _ := range c.selected { c.selected[i] = false }\<close>: the index ranges over the
  vector itself, so this loop cannot fault.
\<close>

definition clear_all :: "bool list \<Rightarrow> bool list" where
  "clear_all s = map (\<lambda>_. False) s"

definition ClearSelected :: "('c, 'e) listBoxImpl \<Rightarrow> ('c, 'e) listBoxImpl" where
  "ClearSelected c = c\<lparr>selected := clear_all (selected c)\<rparr>"

text \<open>
  \<open>for _, idx := range indices { c.selected[idx] = true }\<close>: the writes happen in the
  order of \<open>indices\<close>, and the first index out of range stops the loop with a panic.
\<close>

fun select_all :: "bool list \<Rightarrow> int list \<Rightarrow> (error \<times> bool list) + bool list" where
  "select_all s [] = Inr s"
| "select_all s (idx # rest) =
     (case store s idx True of
        Inl f \<Rightarrow> Inl f
      | Inr s' \<Rightarrow> select_all s' rest)"

definition SetSelectedIndices ::
  "('c, 'e) listBoxImpl \<Rightarrow> int list \<Rightarrow>
   (error \<times> ('c, 'e) listBoxImpl) + ('c, 'e) listBoxImpl" where
  "SetSelectedIndices c indices =
     with_selected c (select_all (clear_all (selected c)) indices)"

subsection \<open>The library functions \<open>preprocessEvent\<close> calls\<close>

text \<open>
  \<open>strings.Split(s, ",")\<close>: the substrings of \<open>s\<close> between the separators, in order; a
  string with no separator is returned whole, and the result is never empty. A Go
  string is a sequence of bytes, as \<open>string\<close> is here.
\<close>

fun Split_loop :: "char \<Rightarrow> string \<Rightarrow> string \<Rightarrow> string list" where
  "Split_loop sep cur [] = [cur]"
| "Split_loop sep cur (c # cs) =
     (if c = sep then cur # Split_loop sep [] cs else Split_loop sep (cur @ [c]) cs)"

definition Split :: "string \<Rightarrow> char \<Rightarrow> string list" where
  "Split s sep = Split_loop sep [] s"

text \<open>
  \<open>strconv.Atoi(s)\<close> is \<open>ParseInt(s, 10, 0)\<close>: an optional sign \<open>+\<close> or \<open>-\<close>, then one or
  more decimal digits and nothing else (\<open>ErrSyntax\<close> otherwise), of a value that fits
  Go's \<open>int\<close> (\<open>ErrRange\<close> otherwise). \<open>IntSize\<close> is the width of \<open>int\<close>, 64 bits on the
  usual platforms.
\<close>

datatype NumError = ErrSyntax | ErrRange

definition IntSize :: nat where
  "IntSize = 64"

definition is_digit :: "char \<Rightarrow> bool" where
  "is_digit c = (48 \<le> (of_char c :: int) \<and> (of_char c :: int) \<le> 57)"

definition digit_val :: "char \<Rightarrow> int" where
  "digit_val c = of_char c - 48"

text \<open>
  \<open>ParseUint\<close> accumulates a \<open>uint64\<close>; it is an \<open>int\<close> here, and the overflow the
  source tests for is the comparison with \<open>maxVal = 2 ^ bitSize - 1\<close>. The characters
  are read from the left, so the first bad character or the first overflow decides
  the error.
\<close>

fun ParseUint_loop :: "int \<Rightarrow> string \<Rightarrow> NumError + int" where
  "ParseUint_loop n [] = Inr n"
| "ParseUint_loop n (d # ds) =
     (if \<not> is_digit d then Inl ErrSyntax
      else if n * 10 + digit_val d > 2 ^ IntSize - 1 then Inl ErrRange
      else ParseUint_loop (n * 10 + digit_val d) ds)"

definition ParseUint :: "string \<Rightarrow> NumError + int" where
  "ParseUint s = (if s = [] then Inl ErrSyntax else ParseUint_loop 0 s)"

definition ParseInt :: "string \<Rightarrow> NumError + int" where
  "ParseInt s =
     (if s = [] then Inl ErrSyntax
      else
        let neg = (hd s = CHR ''-'');
            s1 = (if hd s = CHR ''+'' \<or> hd s = CHR ''-'' then tl s else s)
        in case ParseUint s1 of
             Inl e \<Rightarrow> Inl e
           | Inr un \<Rightarrow>
               if \<not> neg \<and> un \<ge> 2 ^ (IntSize - 1) then Inl ErrRange
               else if neg \<and> un > 2 ^ (IntSize - 1) then Inl ErrRange
               else Inr (if neg then - un else un))"

definition Atoi :: "string \<Rightarrow> NumError + int" where
  "Atoi s = ParseInt s"

subsection \<open>\<open>preprocessEvent\<close>\<close>

text \<open>
  \<open>value\<close> is \<open>r.FormValue(_PARAM_COMP_VALUE)\<close>, the submitted value payload. An empty
  payload returns at once. Otherwise the selection is cleared, and each token of the
  payload that \<open>Atoi\<close> accepts is written with \<open>c.selected[idx] = true\<close>; a token
  \<open>Atoi\<close> rejects is skipped.
\<close>

fun select_tokens :: "bool list \<Rightarrow> string list \<Rightarrow> (error \<times> bool list) + bool list" where
  "select_tokens s [] = Inr s"
| "select_tokens s (sidx # rest) =
     (case Atoi sidx of
        Inl err \<Rightarrow> select_tokens s rest
      | Inr idx \<Rightarrow>
          (case store s idx True of
             Inl f \<Rightarrow> Inl f
           | Inr s' \<Rightarrow> select_tokens s' rest))"

definition preprocessEvent ::
  "('c, 'e) listBoxImpl \<Rightarrow> string \<Rightarrow>
   (error \<times> ('c, 'e) listBoxImpl) + ('c, 'e) listBoxImpl" where
  "preprocessEvent c value =
     (if length value = 0 then Inr c
      else with_selected c
             (select_tokens (selected (ClearSelected c)) (Split value CHR '','')))"

section \<open>The client script (the JavaScript text of \<open>staticJs\<close>)\<close>

subsection \<open>Numbers\<close>

text \<open>
  A JavaScript number is an IEEE 754 double: \<open>NaN\<close>, an infinity, or a finite value,
  which is a rational. The two zeros are one value here (\<open>-0\<close> and \<open>0\<close> compare equal
  and print alike, and nothing below divides by a zero that was computed). An
  arithmetic result is the exact result rounded to the nearest double, ties to the
  even significand: \<open>round_to_double\<close>, with 53 bits of significand, the exponent
  held at -1022 for subnormals, and overflow to an infinity.
\<close>

datatype number = NaN | PInf | NInf | Fin rat

definition pow2 :: "int \<Rightarrow> rat" where
  "pow2 e = (if 0 \<le> e then 2 ^ nat e else 1 / 2 ^ nat (- e))"

definition pow10 :: "int \<Rightarrow> rat" where
  "pow10 e = (if 0 \<le> e then 10 ^ nat e else 1 / 10 ^ nat (- e))"

function bit_length :: "int \<Rightarrow> int" where
  "bit_length n = (if n \<le> 0 then 0 else bit_length (n div 2) + 1)"
  by pat_completeness auto
termination
  by (relation "measure nat") auto

declare bit_length.simps [simp del]

text \<open>The binary exponent of a positive rational: \<open>2 ^ e \<le> x < 2 ^ (e + 1)\<close>.\<close>

definition ilog2 :: "rat \<Rightarrow> int" where
  "ilog2 x =
     (let (a, b) = quotient_of x;
          e0 = bit_length a - bit_length b
      in if pow2 e0 \<le> x then e0 else e0 - 1)"

definition round_half_even :: "rat \<Rightarrow> int" where
  "round_half_even y =
     (let f = \<lfloor>y\<rfloor>; r = y - of_int f
      in if r < 1 / 2 then f
         else if 1 / 2 < r then f + 1
         else if even f then f else f + 1)"

definition round_to_double :: "rat \<Rightarrow> number" where
  "round_to_double x =
     (if x = 0 then Fin 0
      else
        let a = \<bar>x\<bar>;
            e = max (ilog2 a) (- 1022);
            ulp = pow2 (e - 52);
            y = of_int (round_half_even (a / ulp)) * ulp
        in if pow2 1024 \<le> y then (if 0 < x then PInf else NInf)
           else Fin (if 0 < x then y else - y))"

text \<open>A decimal integer literal of the script, such as the constants the server writes.\<close>

definition js_number_of_int :: "int \<Rightarrow> number" where
  "js_number_of_int k = round_to_double (of_int k)"

fun js_add :: "number \<Rightarrow> number \<Rightarrow> number" where
  "js_add NaN y = NaN"
| "js_add x NaN = NaN"
| "js_add PInf NInf = NaN"
| "js_add NInf PInf = NaN"
| "js_add PInf y = PInf"
| "js_add NInf y = NInf"
| "js_add x PInf = PInf"
| "js_add x NInf = NInf"
| "js_add (Fin a) (Fin b) = round_to_double (a + b)"

fun js_div :: "number \<Rightarrow> number \<Rightarrow> number" where
  "js_div NaN y = NaN"
| "js_div x NaN = NaN"
| "js_div (Fin a) (Fin b) =
     (if b = 0 then (if a = 0 then NaN else if 0 < a then PInf else NInf)
      else round_to_double (a / b))"
| "js_div (Fin a) y = Fin 0"
| "js_div x (Fin b) = (if (x = PInf) = (0 \<le> b) then PInf else NInf)"
| "js_div x y = NaN"

text \<open>\<open>x < y\<close> and \<open>x === y\<close> on numbers: both are false when an operand is \<open>NaN\<close>.\<close>

fun js_lt :: "number \<Rightarrow> number \<Rightarrow> bool" where
  "js_lt NaN y = False"
| "js_lt x NaN = False"
| "js_lt PInf y = False"
| "js_lt x NInf = False"
| "js_lt NInf y = True"
| "js_lt x PInf = True"
| "js_lt (Fin a) (Fin b) = (a < b)"

fun js_strict_eq :: "number \<Rightarrow> number \<Rightarrow> bool" where
  "js_strict_eq NaN y = False"
| "js_strict_eq x NaN = False"
| "js_strict_eq x y = (x = y)"

text \<open>
  \<open>Math.round\<close>: the nearest integer, a tie going up. The result of a double is an
  integer of no more significant bits, so it is a double and nothing is rounded twice.
\<close>

fun Math_round :: "number \<Rightarrow> number" where
  "Math_round (Fin x) = Fin (of_int \<lfloor>x + 1 / 2\<rfloor>)"
| "Math_round x = x"

subsection \<open>Numbers as text\<close>

definition digit_char :: "int \<Rightarrow> char" where
  "digit_char d = char_of (48 + d)"

text \<open>The decimal digits of an integer that is not negative.\<close>

function decimal :: "int \<Rightarrow> string" where
  "decimal n = (if n < 10 then [digit_char n] else decimal (n div 10) @ [digit_char (n mod 10)])"
  by pat_completeness auto
termination
  by (relation "measure nat") auto

declare decimal.simps [simp del]

text \<open>The \<open>n\<close> with \<open>10 ^ (n - 1) \<le> x < 10 ^ n\<close>, for a positive \<open>x\<close>.\<close>

definition decimal_exponent :: "rat \<Rightarrow> int" where
  "decimal_exponent x =
     (if 1 \<le> x then int (length (decimal \<lfloor>x\<rfloor>))
      else
        let m = int (length (decimal \<lfloor>1 / x\<rfloor>))
        in if x = pow10 (1 - m) then 2 - m else 1 - m)"

text \<open>
  The text of a number is its shortest decimal digit string that reads back as the
  same double: integers \<open>n\<close>, \<open>k\<close>, \<open>s\<close> with \<open>k\<close> digits in \<open>s\<close>, \<open>s * 10 ^ (n - k)\<close>
  rounding to the number, and \<open>k\<close> least; of two such \<open>s\<close> the closer one, the even one
  on a tie. \<open>shortest_digits\<close> tries \<open>k = 1, 2, ...\<close>; a double is found by \<open>k = 17\<close>,
  so the fuel is never used up on one. \<open>format_digits\<close> lays the digits out: plain up
  to 21 integer digits, a leading \<open>0.\<close> down to \<open>1e-6\<close>, and the exponent form beyond.
\<close>

fun shortest_digits :: "nat \<Rightarrow> rat \<Rightarrow> int \<Rightarrow> int \<Rightarrow> int \<times> int \<times> int" where
  "shortest_digits fuel x n k =
     (let lo = \<lfloor>x / pow10 (n - k)\<rfloor>;
          hi = lo + 1;
          vlo = of_int lo * pow10 (n - k);
          vhi = of_int hi * pow10 (n - k);
          oklo = (round_to_double vlo = Fin x);
          okhi = (round_to_double vhi = Fin x);
          uselo = (oklo \<and> (\<not> okhi \<or> x - vlo < vhi - x \<or> (x - vlo = vhi - x \<and> even lo)))
      in if uselo then (n, k, lo)
         else if okhi then (if hi = \<lfloor>pow10 k\<rfloor> then (n + 1, k, hi div 10) else (n, k, hi))
         else (case fuel of 0 \<Rightarrow> (n, k, lo) | Suc f \<Rightarrow> shortest_digits f x n (k + 1)))"

declare shortest_digits.simps [simp del]

definition format_digits :: "int \<Rightarrow> int \<Rightarrow> int \<Rightarrow> string" where
  "format_digits n k s =
     (let ds = decimal s in
      if k \<le> n \<and> n \<le> 21 then ds @ replicate (nat (n - k)) CHR ''0''
      else if 0 < n \<and> n \<le> 21 then take (nat n) ds @ ''.'' @ drop (nat n) ds
      else if - 6 < n \<and> n \<le> 0 then ''0.'' @ replicate (nat (- n)) CHR ''0'' @ ds
      else
        let e = n - 1;
            ex = (if 0 \<le> e then ''+'' else ''-'') @ decimal \<bar>e\<bar>
        in if k = 1 then ds @ ''e'' @ ex
           else take 1 ds @ ''.'' @ drop 1 ds @ ''e'' @ ex)"

definition positive_to_string :: "rat \<Rightarrow> string" where
  "positive_to_string x =
     (case shortest_digits 20 x (decimal_exponent x) 1 of (n, k, s) \<Rightarrow> format_digits n k s)"

fun number_to_string :: "number \<Rightarrow> string" where
  "number_to_string NaN = ''NaN''"
| "number_to_string PInf = ''Infinity''"
| "number_to_string NInf = ''-Infinity''"
| "number_to_string (Fin x) =
     (if x = 0 then ''0''
      else if x < 0 then ''-'' @ positive_to_string (- x)
      else positive_to_string x)"

subsection \<open>Values, and the operator \<open>+\<close>\<close>

text \<open>
  The values a variable of the script holds, strings apart: strings are \<open>string\<close>, of
  characters up to U+00FF. \<open>a + b\<close> with a string on the left is concatenation with
  the text of \<open>b\<close> (\<open>str_plus\<close>); with no string on either side it is the addition of
  the two operands as numbers (\<open>js_plus\<close>), and \<open>undefined\<close> as a number is \<open>NaN\<close>.
\<close>

datatype jsval = Undefined | Null | Boolean bool | Number number

fun ToBoolean :: "jsval \<Rightarrow> bool" where
  "ToBoolean Undefined = False"
| "ToBoolean Null = False"
| "ToBoolean (Boolean b) = b"
| "ToBoolean (Number x) = (x \<noteq> NaN \<and> x \<noteq> Fin 0)"

fun ToNumber :: "jsval \<Rightarrow> number" where
  "ToNumber Undefined = NaN"
| "ToNumber Null = Fin 0"
| "ToNumber (Boolean b) = (if b then Fin 1 else Fin 0)"
| "ToNumber (Number x) = x"

fun ToString :: "jsval \<Rightarrow> string" where
  "ToString Undefined = ''undefined''"
| "ToString Null = ''null''"
| "ToString (Boolean b) = (if b then ''true'' else ''false'')"
| "ToString (Number x) = number_to_string x"

definition js_plus :: "jsval \<Rightarrow> jsval \<Rightarrow> jsval" where
  "js_plus x y = Number (js_add (ToNumber x) (ToNumber y))"

definition str_plus :: "string \<Rightarrow> jsval \<Rightarrow> string" where
  "str_plus a y = a @ ToString y"

subsection \<open>\<open>split\<close>, \<open>parseInt\<close> and \<open>parseFloat\<close>\<close>

text \<open>
  \<open>s.split(sep)\<close>, \<open>sep\<close> one character: the pieces of \<open>s\<close> between the separators, as
  \<open>strings.Split\<close> gives them; the empty string splits into one empty piece.
\<close>

definition js_split :: "string \<Rightarrow> char \<Rightarrow> string list" where
  "js_split s sep = Split_loop sep [] s"

definition is_js_space :: "char \<Rightarrow> bool" where
  "is_js_space c = ((of_char c :: nat) \<in> {9, 10, 11, 12, 13, 32, 160})"

definition radix_digit :: "int \<Rightarrow> char \<Rightarrow> int option" where
  "radix_digit r c =
     (let n = (of_char c :: int);
          v = (if 48 \<le> n \<and> n \<le> 57 then n - 48
               else if 97 \<le> n \<and> n \<le> 122 then n - 87
               else if 65 \<le> n \<and> n \<le> 90 then n - 55
               else r)
      in if v < r then Some v else None)"

definition digits_value :: "int \<Rightarrow> string \<Rightarrow> int" where
  "digits_value r z =
     foldl (\<lambda>a c. a * r + (case radix_digit r c of Some v \<Rightarrow> v | None \<Rightarrow> 0)) 0 z"

text \<open>
  \<open>parseInt(s)\<close> with no radix: leading white space is skipped, then a sign, then \<open>0x\<close>
  or \<open>0X\<close> for radix 16, then the longest run of digits; no digit at all gives \<open>NaN\<close>.
\<close>

definition parseInt :: "string \<Rightarrow> number" where
  "parseInt inputString =
     (let S = dropWhile is_js_space inputString;
          neg = (take 1 S = ''-'');
          S1 = (if take 1 S = ''+'' \<or> take 1 S = ''-'' then drop 1 S else S);
          hex = (take 2 S1 = ''0x'' \<or> take 2 S1 = ''0X'');
          R = (if hex then 16 else 10);
          S2 = (if hex then drop 2 S1 else S1);
          Z = takeWhile (\<lambda>c. radix_digit R c \<noteq> None) S2
      in if Z = [] then NaN
         else round_to_double (of_int (if neg then - digits_value R Z else digits_value R Z)))"

definition is_dec_digit :: "char \<Rightarrow> bool" where
  "is_dec_digit c = (radix_digit 10 c \<noteq> None)"

text \<open>
  \<open>parseFloat(s)\<close>: after the white space, the longest prefix that is a decimal
  literal (a sign, then \<open>Infinity\<close> or digits with an optional fraction and an optional
  exponent that has at least one digit); \<open>NaN\<close> when there is none.
\<close>

definition parseFloat :: "string \<Rightarrow> number" where
  "parseFloat inputString =
     (let S = dropWhile is_js_space inputString;
          neg = (take 1 S = ''-'');
          S1 = (if take 1 S = ''+'' \<or> take 1 S = ''-'' then drop 1 S else S)
      in if take 8 S1 = ''Infinity'' then (if neg then NInf else PInf)
         else
           let ip = takeWhile is_dec_digit S1;
               r1 = dropWhile is_dec_digit S1;
               fp = (if take 1 r1 = ''.'' then takeWhile is_dec_digit (drop 1 r1) else []);
               r2 = (if take 1 r1 = ''.'' \<and> (ip \<noteq> [] \<or> fp \<noteq> [])
                     then dropWhile is_dec_digit (drop 1 r1) else r1);
               r3 = (if take 1 r2 = ''e'' \<or> take 1 r2 = ''E'' then drop 1 r2 else []);
               eneg = (take 1 r3 = ''-'');
               r4 = (if take 1 r3 = ''+'' \<or> take 1 r3 = ''-'' then drop 1 r3 else r3);
               ep = takeWhile is_dec_digit r4;
               e = (if eneg then - digits_value 10 ep else digits_value 10 ep);
               m = of_int (digits_value 10 (ip @ fp)) * pow10 (e - int (length fp))
           in if ip = [] \<and> fp = [] then NaN
              else round_to_double (if neg then - m else m))"

subsection \<open>\<open>procEresp\<close>\<close>

text \<open>
  What the script does to the page is recorded as a list of effects, in the order of
  execution: an alert box, a call of \<open>rerenderComp\<close> on an id, the focus request that
  \<open>focusComp\<close> makes for an id, an assignment to \<open>window.location.href\<close>, and
  \<open>window.location.reload(true)\<close>.
\<close>

datatype effect =
    Alert string
  | RerenderComp string
  | FocusComp string
  | SetLocationHref string
  | LocationReload

text \<open>
  The response codes \<open>_eraNoAction\<close>, ... are written into the script from Go constants
  that are declared in another file of the package: they are parameters here.
\<close>

record era =
  eraNoAction :: int
  eraReloadWin :: int
  eraDirtyComps :: int
  eraFocusComp :: int

text \<open>
  \<open>focusComp(compId)\<close>: for a \<open>compId\<close> that is not \<open>null\<close> or \<open>undefined\<close>, the element
  whose id is the text of \<open>compId\<close> is looked up and, if present, focused.
\<close>

definition focusComp :: "jsval \<Rightarrow> effect list" where
  "focusComp compId =
     (if compId \<noteq> Null \<and> compId \<noteq> Undefined then [FocusComp (ToString compId)] else [])"

text \<open>
  One turn of the loop of \<open>procEresp\<close>, on \<open>actions[i]\<close>. The \<open>switch\<close> compares
  \<open>parseInt(n[0])\<close> with the case labels by \<open>===\<close>, in the order they are written, and
  each case ends in \<open>break\<close>. \<open>n\<close> comes from \<open>split\<close>; were it empty, \<open>n[0]\<close> would be
  \<open>undefined\<close>.
\<close>

definition proc_action :: "era \<Rightarrow> string \<Rightarrow> string \<Rightarrow> effect list" where
  "proc_action k pathApp action =
     (case js_split action CHR '','' of
        [] \<Rightarrow> [Alert (str_plus ''Unknown response code:'' Undefined)]
      | n0 # ns \<Rightarrow>
          let code = parseInt n0 in
          if js_strict_eq code (js_number_of_int (eraDirtyComps k)) then map RerenderComp ns
          else if js_strict_eq code (js_number_of_int (eraFocusComp k)) then
            (case ns of [] \<Rightarrow> [] | n1 # _ \<Rightarrow> focusComp (Number (parseInt n1)))
          else if js_strict_eq code (js_number_of_int (eraNoAction k)) then []
          else if js_strict_eq code (js_number_of_int (eraReloadWin k)) then
            (case ns of
               [] \<Rightarrow> [LocationReload]
             | n1 # _ \<Rightarrow>
                 if length n1 > 0 then [SetLocationHref (pathApp @ n1)] else [LocationReload])
          else [Alert (''Unknown response code:'' @ n0)])"

text \<open>\<open>procEresp(xmlhttp)\<close>, on \<open>xmlhttp.responseText\<close>; \<open>pathApp\<close> is the global \<open>_pathApp\<close>.\<close>

definition procEresp :: "era \<Rightarrow> string \<Rightarrow> string \<Rightarrow> effect list" where
  "procEresp k pathApp responseText =
     (let actions = js_split responseText CHR '';'' in
      if length actions = 0 then [Alert ''No response received!'']
      else concat (map (proc_action k pathApp) actions))"

subsection \<open>\<open>se\<close>: the modifier keys of the request\<close>

text \<open>
  An object is its properties: reading a property the object does not have gives
  \<open>undefined\<close>. A DOM keyboard or mouse event has the boolean properties \<open>altKey\<close>,
  \<open>ctrlKey\<close>, \<open>metaKey\<close> and \<open>shiftKey\<close>, one for each modifier key held down.
\<close>

type_synonym object = "string \<Rightarrow> jsval"

definition dom_event :: "bool \<Rightarrow> bool \<Rightarrow> bool \<Rightarrow> bool \<Rightarrow> object" where
  "dom_event alt ctrl meta shift =
     (\<lambda>p. if p = ''altKey'' then Boolean alt
          else if p = ''ctrlKey'' then Boolean ctrl
          else if p = ''metaKey'' then Boolean meta
          else if p = ''shiftKey'' then Boolean shift
          else Undefined)"

text \<open>
  The masks \<open>_modKeyAlt\<close>, \<open>_modKeyCtlr\<close>, \<open>_modKeyMeta\<close>, \<open>_modKeyShift\<close> are written into
  the script from the Go constants \<open>ModKeyAlt\<close>, ..., declared in another file.
\<close>

record modKeyMasks =
  ModKeyAlt :: int
  ModKeyCtrl :: int
  ModKeyMeta :: int
  ModKeyShift :: int

text \<open>
  The block of \<open>se\<close> that computes \<open>modKeys\<close>, statement by statement: \<open>var modKeys;\<close>
  declares the variable without a value, and each \<open>modKeys += c ? mask : 0\<close> adds to
  it. The second statement reads the property \<open>ctlrKey\<close>, as the source spells it.
\<close>

definition se_modKeys :: "modKeyMasks \<Rightarrow> object \<Rightarrow> jsval" where
  "se_modKeys k event =
     (let modKeys = Undefined;
          modKeys = js_plus modKeys
            (Number (if ToBoolean (event ''altKey'') then js_number_of_int (ModKeyAlt k) else Fin 0));
          modKeys = js_plus modKeys
            (Number (if ToBoolean (event ''ctlrKey'') then js_number_of_int (ModKeyCtrl k) else Fin 0));
          modKeys = js_plus modKeys
            (Number (if ToBoolean (event ''metaKey'') then js_number_of_int (ModKeyMeta k) else Fin 0));
          modKeys = js_plus modKeys
            (Number (if ToBoolean (event ''shiftKey'') then js_number_of_int (ModKeyShift k) else Fin 0))
      in modKeys)"

text \<open>
  What \<open>data += "&" + _pModKeys + "=" + modKeys\<close> appends to the request body;
  \<open>pModKeys\<close> is the parameter name \<open>_pModKeys\<close>, a Go constant of another file.
\<close>

definition se_modKeys_data :: "string \<Rightarrow> modKeyMasks \<Rightarrow> object \<Rightarrow> string" where
  "se_modKeys_data pModKeys k event = str_plus ((''&'' @ pModKeys) @ ''='') (se_modKeys k event)"

subsection \<open>\<open>setupTimer\<close>\<close>

text \<open>
  An entry of the table \<open>timers\<close>. The server writes \<open>timeout\<close> as a decimal integer of
  milliseconds and \<open>repeat\<close> and \<open>reset\<close> as \<open>true\<close> or \<open>false\<close>, so \<open>!=\<close> on them is
  inequality. \<open>timer_id\<close> is the field \<open>id\<close>: the handle \<open>setInterval\<close> or \<open>setTimeout\<close>
  returned.
\<close>

record timer =
  js :: string
  timeout :: int
  repeat :: bool
  reset :: bool
  timer_id :: nat

text \<open>
  The page: the table \<open>timers\<close>, keyed by component id (\<open>timers[compId] = null\<close> and a
  key never set both read as no timer); the timers the browser has scheduled, by
  handle; the next handle the browser gives out (every handle is new); and the
  browser calls made so far, in order.
\<close>

datatype scheduled = Interval string int | Timeout string int

datatype call =
    ClearInterval nat
  | ClearTimeout nat
  | SetInterval string int nat
  | SetTimeout string int nat

record page =
  timers :: "int \<rightharpoonup> timer"
  active :: "nat \<rightharpoonup> scheduled"
  next_handle :: nat
  calls :: "call list"

text \<open>
  The page as the script starts: \<open>var timers = new Object()\<close>, and nothing scheduled;
  \<open>h\<close> is the first handle the browser will give out.
\<close>

definition new_page :: "nat \<Rightarrow> page" where
  "new_page h = \<lparr>timers = Map.empty, active = Map.empty, next_handle = h, calls = []\<rparr>"

definition clearInterval :: "nat \<Rightarrow> page \<Rightarrow> page" where
  "clearInterval h s = s\<lparr>active := (active s)(h := None), calls := calls s @ [ClearInterval h]\<rparr>"

definition clearTimeout :: "nat \<Rightarrow> page \<Rightarrow> page" where
  "clearTimeout h s = s\<lparr>active := (active s)(h := None), calls := calls s @ [ClearTimeout h]\<rparr>"

definition setInterval :: "string \<Rightarrow> int \<Rightarrow> page \<Rightarrow> nat \<times> page" where
  "setInterval code ms s =
     (next_handle s,
      s\<lparr>active := (active s)(next_handle s \<mapsto> Interval code ms),
        next_handle := Suc (next_handle s),
        calls := calls s @ [SetInterval code ms (next_handle s)]\<rparr>)"

definition setTimeout :: "string \<Rightarrow> int \<Rightarrow> page \<Rightarrow> nat \<times> page" where
  "setTimeout code ms s =
     (next_handle s,
      s\<lparr>active := (active s)(next_handle s \<mapsto> Timeout code ms),
        next_handle := Suc (next_handle s),
        calls := calls s @ [SetTimeout code ms (next_handle s)]\<rparr>)"

definition changed :: "timer \<Rightarrow> string \<Rightarrow> int \<Rightarrow> bool \<Rightarrow> bool \<Rightarrow> bool" where
  "changed t js' timeout' repeat' reset' =
     (js t \<noteq> js' \<or> timeout t \<noteq> timeout' \<or> repeat t \<noteq> repeat' \<or> reset t \<noteq> reset')"

text \<open>The part of \<open>setupTimer\<close> after \<open>// Create new timer\<close>.\<close>

definition create_timer :: "int \<Rightarrow> string \<Rightarrow> int \<Rightarrow> bool \<Rightarrow> bool \<Rightarrow> page \<Rightarrow> page" where
  "create_timer compId js' timeout' repeat' reset' s =
     (case (if repeat' then setInterval js' timeout' s else setTimeout js' timeout' s) of
        (h, s') \<Rightarrow>
          s'\<lparr>timers := (timers s')(compId \<mapsto>
                \<lparr>js = js', timeout = timeout', repeat = repeat', reset = reset',
                 timer_id = h\<rparr>)\<rparr>)"

definition setupTimer ::
  "int \<Rightarrow> string \<Rightarrow> int \<Rightarrow> bool \<Rightarrow> bool \<Rightarrow> bool \<Rightarrow> page \<Rightarrow> page" where
  "setupTimer compId js' timeout' repeat' active' reset' s =
     (case timers s compId of
        Some t \<Rightarrow>
          let ch = changed t js' timeout' repeat' reset';
              s1 = (if \<not> active' \<or> ch then
                      (if repeat t then clearInterval (timer_id t) s
                       else clearTimeout (timer_id t) s)
                        \<lparr>timers := (timers s)(compId := None)\<rparr>
                    else s)
          in if \<not> ch then s1
             else if \<not> active' then s1
             else create_timer compId js' timeout' repeat' reset' s1
      | None \<Rightarrow>
          if \<not> active' then s
          else create_timer compId js' timeout' repeat' reset' s)"

subsection \<open>\<open>checkSession\<close>\<close>

text \<open>
  The monitor's element, as far as \<open>checkSession\<close> touches it: its class list and the
  text of its first child, \<open>e.children[0].innerText\<close>.
\<close>

record element =
  classList :: "string list"
  innerText0 :: string

definition classList_add :: "string \<Rightarrow> element \<Rightarrow> element" where
  "classList_add c e = (if c \<in> set (classList e) then e else e\<lparr>classList := classList e @ [c]\<rparr>)"

definition classList_remove :: "string \<Rightarrow> element \<Rightarrow> element" where
  "classList_remove c e = e\<lparr>classList := removeAll c (classList e)\<rparr>"

text \<open>The body of the handler, from the number \<open>timeoutSec\<close> on.\<close>

definition show_timeout :: "number \<Rightarrow> element \<Rightarrow> element" where
  "show_timeout timeoutSec e =
     (if js_lt timeoutSec (Fin 0) then
        (classList_add ''gwu-SessMonitor-Expired'' e)\<lparr>innerText0 := ''Expired!''\<rparr>
      else
        let e1 = classList_remove ''gwu-SessMonitor-Expired'' e in
        if js_lt timeoutSec (Fin 60) then e1\<lparr>innerText0 := ''<1 min''\<rparr>
        else e1\<lparr>innerText0 :=
               str_plus ''~'' (Number (Math_round (js_div timeoutSec (Fin 60)))) @ '' min''\<rparr>)"

text \<open>The handler \<open>xmlhttp.onreadystatechange\<close> that \<open>checkSession\<close> installs.\<close>

definition onreadystatechange :: "int \<Rightarrow> int \<Rightarrow> string \<Rightarrow> element \<Rightarrow> element" where
  "onreadystatechange readyState status responseText e =
     (if readyState = 4 \<and> status = 200 then show_timeout (parseFloat responseText) e else e)"

text \<open>
  \<open>checkSession(compId)\<close> on the elements of the document: nothing happens when no
  element has the id; otherwise the request is synchronous, and the handler runs on
  its response.
\<close>

definition checkSession ::
  "int \<Rightarrow> int \<Rightarrow> string \<Rightarrow> (int \<rightharpoonup> element) \<Rightarrow> (int \<rightharpoonup> element)" where
  "checkSession compId status responseText doc =
     (case doc compId of
        None \<Rightarrow> doc
      | Some e \<Rightarrow> doc(compId \<mapsto> onreadystatechange 4 status responseText e))"

section \<open>The session monitor component (gwu/sess_monitor.go)\<close>

text \<open>
  \<open>Render\<close> writes to a \<open>Writer\<close>, which is declared in another file of the package, as
  are the byte strings \<open>strSpanOp\<close>, ... and the methods \<open>renderAttrsAndStyle\<close> and
  \<open>renderEHandlers\<close> of \<open>compImpl\<close>. They are parameters: the strings, what \<open>Writev\<close>
  writes for an \<open>int\<close> and for a \<open>bool\<close>, and what the two methods write for this
  component.
\<close>

record writer =
  strSpanOp :: string
  strSpanCl :: string
  strGT :: string
  strScriptOp :: string
  strScriptCl :: string
  strComma :: string
  strQuote :: string
  strJsParamCl :: string
  strParenCl :: string
  strSemicol :: string
  Writev_int :: "int \<Rightarrow> string"
  Writev_bool :: "bool \<Rightarrow> string"
  renderAttrsAndStyle :: string
  renderEHandlers :: string

definition strEmptySpan :: string where
  "strEmptySpan = ''<span></span>''"

definition strJsCheckSessOp :: string where
  "strJsCheckSessOp = ''checkSession(''"

text \<open>\<open>Render\<close>: what is written, in order; \<open>cid\<close> is \<open>int(c.id)\<close>.\<close>

definition Render :: "writer \<Rightarrow> int \<Rightarrow> string" where
  "Render w cid =
     concat
       [strSpanOp w, renderAttrsAndStyle w, renderEHandlers w, strGT w,
        strEmptySpan,
        strScriptOp w, Writev_int w cid, strComma w,
        strQuote w, strJsCheckSessOp, Writev_int w cid, strJsParamCl w,
        strComma w, Writev_int w (60 * 1000),
        strComma w, Writev_bool w True,
        strComma w, Writev_bool w True,
        strComma w, Writev_bool w False,
        strParenCl w, strSemicol w,
        strJsCheckSessOp, Writev_int w cid, strScriptCl w,
        strSpanCl w]"

section \<open>Notions the properties are stated with\<close>



text \<open>
  The call that tears a timer down, and the call that starts one; the parameters of a
  call of \<open>setupTimer\<close> are those of a timer when all four are equal.
\<close>

definition clear_call :: "timer \<Rightarrow> call" where
  "clear_call t = (if repeat t then ClearInterval (timer_id t) else ClearTimeout (timer_id t))"

definition set_call :: "string \<Rightarrow> int \<Rightarrow> bool \<Rightarrow> nat \<Rightarrow> call" where
  "set_call js' timeout' repeat' h =
     (if repeat' then SetInterval js' timeout' h else SetTimeout js' timeout' h)"

definition same_parameters :: "timer \<Rightarrow> string \<Rightarrow> int \<Rightarrow> bool \<Rightarrow> bool \<Rightarrow> bool" where
  "same_parameters t js' timeout' repeat' reset' =
     (js t = js' \<and> timeout t = timeout' \<and> repeat t = repeat' \<and> reset t = reset')"

text \<open>
  At most one timer per component id: every timer the browser has scheduled is the one
  the table records for some id, no two ids record the same handle, and every handle
  in use is older than the next one. A component id is a key of the table, so it then
  owns at most one scheduled timer, and no scheduled timer is left without an owner.
\<close>

definition one_timer_per_id :: "page \<Rightarrow> bool" where
  "one_timer_per_id s =
     ((\<forall>h\<in>dom (active s). h < next_handle s) \<and>
      (\<forall>k t. timers s k = Some t \<longrightarrow> timer_id t < next_handle s) \<and>
      (\<forall>k k' t t'. timers s k = Some t \<and> timers s k' = Some t' \<and> timer_id t = timer_id t'
          \<longrightarrow> k = k') \<and>
      (\<forall>h\<in>dom (active s). \<exists>k t. timers s k = Some t \<and> timer_id t = h))"

text \<open>
  The indices a payload asks for: the values of the comma-separated tokens that
  \<open>strconv.Atoi\<close> accepts, in the order of the payload.
\<close>

definition accepted :: "string \<Rightarrow> int list" where
  "accepted value =
     concat (map (\<lambda>sidx. case Atoi sidx of Inl err \<Rightarrow> [] | Inr idx \<Rightarrow> [idx])
                 (Split value CHR '',''))"

section \<open>Properties of the ListBox\<close>

subsection \<open>Auxiliary facts\<close>

lemma clear_all_idem: "clear_all (clear_all s) = clear_all s"
  by (simp add: clear_all_def)

lemma length_clear_all: "length (clear_all s) = length s"
  by (simp add: clear_all_def)

lemma clear_all_nth: "j < length s \<Longrightarrow> clear_all s ! j = False"
  by (simp add: clear_all_def)

lemma store_in_range:
  "0 \<le> i \<Longrightarrow> i < int (length s) \<Longrightarrow> store s i b = Inr (s[nat i := b])"
  by (simp add: store_def)

lemma store_out_of_range:
  "\<not> (0 \<le> i \<and> i < int (length s)) \<Longrightarrow> store s i b = Inl (IndexOutOfRange i (length s), s)"
  by (simp add: store_def)

lemma select_all_in_range:
  "\<forall>i\<in>set indices. 0 \<le> i \<and> i < int (length s) \<Longrightarrow>
   \<exists>s'. select_all s indices = Inr s' \<and> length s' = length s \<and>
        (\<forall>j<length s. s' ! j = (s ! j \<or> int j \<in> set indices))"
proof (induction indices arbitrary: s)
  case Nil
  then show ?case by simp
next
  case (Cons idx rest)
  let ?t = "s[nat idx := True]"
  from Cons.prems have r: "0 \<le> idx" "idx < int (length s)" by simp_all
  from Cons.prems have "\<forall>i\<in>set rest. 0 \<le> i \<and> i < int (length ?t)" by simp
  from Cons.IH [OF this] obtain s' where
    s': "select_all ?t rest = Inr s'" "length s' = length ?t"
        "\<forall>j<length ?t. s' ! j = (?t ! j \<or> int j \<in> set rest)" by blast
  have "select_all s (idx # rest) = Inr s'"
    using r s'(1) by (simp add: store_in_range)
  moreover have "length s' = length s" using s'(2) by simp
  moreover have "\<forall>j<length s. s' ! j = (s ! j \<or> int j \<in> set (idx # rest))"
  proof (intro allI impI)
    fix j assume j: "j < length s"
    then have "s' ! j = (?t ! j \<or> int j \<in> set rest)" using s'(3) by simp
    moreover have "?t ! j = (s ! j \<or> int j = idx)"
      using j r by (cases "j = nat idx") auto
    ultimately show "s' ! j = (s ! j \<or> int j \<in> set (idx # rest))" by auto
  qed
  ultimately show ?case by blast
qed

lemma select_all_out_of_range:
  "\<exists>i\<in>set indices. \<not> (0 \<le> i \<and> i < int (length s)) \<Longrightarrow>
   \<exists>i s'. select_all s indices = Inl (IndexOutOfRange i (length s), s') \<and>
          i \<in> set indices \<and> \<not> (0 \<le> i \<and> i < int (length s)) \<and> length s' = length s"
proof (induction indices arbitrary: s)
  case Nil
  then show ?case by simp
next
  case (Cons idx rest)
  show ?case
  proof (cases "0 \<le> idx \<and> idx < int (length s)")
    case True
    let ?t = "s[nat idx := True]"
    from True Cons.prems have "\<exists>i\<in>set rest. \<not> (0 \<le> i \<and> i < int (length ?t))" by auto
    from Cons.IH [OF this] obtain i s' where
      "select_all ?t rest = Inl (IndexOutOfRange i (length ?t), s')" "i \<in> set rest"
      "\<not> (0 \<le> i \<and> i < int (length ?t))" "length s' = length ?t" by blast
    then show ?thesis using True by (auto simp: store_in_range)
  next
    case False
    then show ?thesis by (auto simp: store_out_of_range)
  qed
qed

lemma SelectedIndices_loop_eq:
  "SelectedIndices_loop i s si = si @ map (\<lambda>j. int (i + j)) (filter (\<lambda>j. s ! j) [0..<length s])"
proof (induction s arbitrary: i si)
  case Nil
  then show ?case by simp
next
  case (Cons b bs)
  have upt: "[0..<length (b # bs)] = 0 # map Suc [0..<length bs]"
    by (simp add: upt_conv_Cons map_Suc_upt del: upt_Suc)
  show ?case
    by (simp only: SelectedIndices_loop.simps Cons.IH upt) (simp add: filter_map comp_def)
qed

lemma SelectedIndices_eq:
  "SelectedIndices c = map int (filter (\<lambda>j. selected c ! j) [0..<length (selected c)])"
  by (simp add: SelectedIndices_def SelectedIndices_loop_eq)

lemma sorted_SelectedIndices: "sorted (SelectedIndices c) \<and> distinct (SelectedIndices c)"
  unfolding SelectedIndices_eq
  by (auto simp: sorted_map distinct_map inj_on_def intro!: sorted_wrt_filter sorted_upt)

lemma set_SelectedIndices:
  "set (SelectedIndices c) = {int j |j. j < length (selected c) \<and> selected c ! j}"
  unfolding SelectedIndices_eq by auto

lemma select_tokens_unparseable:
  "\<forall>tok\<in>set toks. \<forall>idx. Atoi tok \<noteq> Inr idx \<Longrightarrow> select_tokens s toks = Inr s"
proof (induction toks)
  case Nil
  then show ?case by simp
next
  case (Cons tok rest)
  then have "\<forall>idx. Atoi tok \<noteq> Inr idx" by simp
  then obtain err where "Atoi tok = Inl err" by (cases "Atoi tok") auto
  with Cons show ?case by simp
qed

lemma select_all_first_out_of_range:
  "\<forall>j\<in>set pre. 0 \<le> j \<and> j < int (length s) \<Longrightarrow> \<not> (0 \<le> i \<and> i < int (length s)) \<Longrightarrow>
   \<exists>s'. select_all s (pre @ i # post) = Inl (IndexOutOfRange i (length s), s') \<and>
        length s' = length s \<and> (\<forall>j<length s. s' ! j = (s ! j \<or> int j \<in> set pre))"
proof (induction pre arbitrary: s)
  case Nil
  then show ?case by (simp add: store_out_of_range)
next
  case (Cons idx rest)
  let ?t = "s[nat idx := True]"
  from Cons.prems have r: "0 \<le> idx" "idx < int (length s)" by simp_all
  from Cons.prems have "\<forall>j\<in>set rest. 0 \<le> j \<and> j < int (length ?t)"
    and "\<not> (0 \<le> i \<and> i < int (length ?t))" by simp_all
  from Cons.IH [OF this] obtain s' where
    s': "select_all ?t (rest @ i # post) = Inl (IndexOutOfRange i (length ?t), s')"
        "length s' = length ?t"
        "\<forall>j<length ?t. s' ! j = (?t ! j \<or> int j \<in> set rest)" by blast
  have "select_all s ((idx # rest) @ i # post) = Inl (IndexOutOfRange i (length s), s')"
    using r s'(1) by (simp add: store_in_range)
  moreover have "length s' = length s" using s'(2) by simp
  moreover have "\<forall>j<length s. s' ! j = (s ! j \<or> int j \<in> set (idx # rest))"
  proof (intro allI impI)
    fix j assume j: "j < length s"
    then have "s' ! j = (?t ! j \<or> int j \<in> set rest)" using s'(3) by simp
    moreover have "?t ! j = (s ! j \<or> int j = idx)"
      using j r by (cases "j = nat idx") auto
    ultimately show "s' ! j = (s ! j \<or> int j \<in> set (idx # rest))" by auto
  qed
  ultimately show ?case by blast
qed

lemma select_tokens_accepted:
  "select_tokens s toks =
     select_all s (concat (map (\<lambda>sidx. case Atoi sidx of Inl err \<Rightarrow> [] | Inr idx \<Rightarrow> [idx]) toks))"
proof (induction toks arbitrary: s)
  case Nil
  then show ?case by simp
next
  case (Cons tok rest)
  show ?case
  proof (cases "Atoi tok")
    case (Inl err)
    then show ?thesis by (simp add: Cons.IH)
  next
    case (Inr idx)
    then show ?thesis by (simp add: Cons.IH split: sum.splits)
  qed
qed

lemma SelectedIndices_marked:
  assumes "\<forall>j<length (selected c). selected c ! j = (int j \<in> set idxs)"
    and "\<forall>i\<in>set idxs. 0 \<le> i \<and> i < int (length (selected c))"
  shows "SelectedIndices c = sorted_list_of_set (set idxs)"
proof -
  have "set (SelectedIndices c) = set idxs"
  proof
    show "set (SelectedIndices c) \<subseteq> set idxs"
      using assms(1) by (auto simp: set_SelectedIndices)
    show "set idxs \<subseteq> set (SelectedIndices c)"
    proof
      fix i assume i: "i \<in> set idxs"
      with assms(2) have "0 \<le> i" "nat i < length (selected c)" by auto
      with i assms(1) show "i \<in> set (SelectedIndices c)"
        by (auto simp: set_SelectedIndices intro!: exI [of _ "nat i"])
    qed
  qed
  then show ?thesis
    using sorted_SelectedIndices [of c]
    by (metis sorted_list_of_set.idem_if_sorted_distinct)
qed

lemma select_all_returns:
  assumes "\<forall>i\<in>set idxs. 0 \<le> i \<and> i < int (length (selected c))"
  shows "\<exists>s'. select_all (clear_all (selected c)) idxs = Inr s' \<and>
              length s' = length (selected c) \<and>
              SelectedIndices (c\<lparr>selected := s'\<rparr>) = sorted_list_of_set (set idxs)"
proof -
  let ?z = "clear_all (selected c)"
  from assms have "\<forall>i\<in>set idxs. 0 \<le> i \<and> i < int (length ?z)"
    by (simp add: length_clear_all)
  from select_all_in_range [OF this] obtain s' where
    s': "select_all ?z idxs = Inr s'" "length s' = length ?z"
        "\<forall>j<length ?z. s' ! j = (?z ! j \<or> int j \<in> set idxs)" by blast
  have "SelectedIndices (c\<lparr>selected := s'\<rparr>) = sorted_list_of_set (set idxs)"
  proof (rule SelectedIndices_marked)
    show "\<forall>j<length (selected (c\<lparr>selected := s'\<rparr>)).
            selected (c\<lparr>selected := s'\<rparr>) ! j = (int j \<in> set idxs)"
      using s'(2,3) by (simp add: length_clear_all clear_all_nth)
    show "\<forall>i\<in>set idxs. 0 \<le> i \<and> i < int (length (selected (c\<lparr>selected := s'\<rparr>)))"
      using s'(2) assms(1) by (simp add: length_clear_all)
  qed
  with s' show ?thesis by (auto simp: length_clear_all)
qed

lemma select_all_faults:
  assumes "\<forall>j\<in>set pre. 0 \<le> j \<and> j < int (length (selected c))"
    and "\<not> (0 \<le> i \<and> i < int (length (selected c)))"
  shows "\<exists>s'. select_all (clear_all (selected c)) (pre @ i # post) =
                Inl (IndexOutOfRange i (length (selected c)), s') \<and>
              length s' = length (selected c) \<and>
              SelectedIndices (c\<lparr>selected := s'\<rparr>) = sorted_list_of_set (set pre)"
proof -
  let ?z = "clear_all (selected c)"
  from assms have "\<forall>j\<in>set pre. 0 \<le> j \<and> j < int (length ?z)"
    and "\<not> (0 \<le> i \<and> i < int (length ?z))"
    by (simp_all add: length_clear_all)
  from select_all_first_out_of_range [OF this] obtain s' where
    s': "select_all ?z (pre @ i # post) = Inl (IndexOutOfRange i (length ?z), s')"
        "length s' = length ?z"
        "\<forall>j<length ?z. s' ! j = (?z ! j \<or> int j \<in> set pre)" by blast
  have "SelectedIndices (c\<lparr>selected := s'\<rparr>) = sorted_list_of_set (set pre)"
  proof (rule SelectedIndices_marked)
    show "\<forall>j<length (selected (c\<lparr>selected := s'\<rparr>)).
            selected (c\<lparr>selected := s'\<rparr>) ! j = (int j \<in> set pre)"
      using s'(2,3) by (simp add: length_clear_all clear_all_nth)
    show "\<forall>i\<in>set pre. 0 \<le> i \<and> i < int (length (selected (c\<lparr>selected := s'\<rparr>)))"
      using s'(2) assms(1) by (simp add: length_clear_all)
  qed
  with s' show ?thesis by (auto simp: length_clear_all)
qed

lemma SetSelectedIndices_returns:
  assumes "\<forall>i\<in>set idxs. 0 \<le> i \<and> i < int (length (selected c))"
  shows "\<exists>s'. SetSelectedIndices c idxs = Inr (c\<lparr>selected := s'\<rparr>) \<and>
              length s' = length (selected c) \<and>
              SelectedIndices (c\<lparr>selected := s'\<rparr>) = sorted_list_of_set (set idxs)"
  using select_all_returns [OF assms]
  by (auto simp: SetSelectedIndices_def with_selected_def)

lemma SetSelectedIndices_faults:
  assumes "\<forall>j\<in>set pre. 0 \<le> j \<and> j < int (length (selected c))"
    and "\<not> (0 \<le> i \<and> i < int (length (selected c)))"
  shows "\<exists>s'. SetSelectedIndices c (pre @ i # post) =
                Inl (IndexOutOfRange i (length (selected c)), c\<lparr>selected := s'\<rparr>) \<and>
              length s' = length (selected c) \<and>
              SelectedIndices (c\<lparr>selected := s'\<rparr>) = sorted_list_of_set (set pre)"
  using select_all_faults [OF assms, of post]
  by (auto simp: SetSelectedIndices_def with_selected_def)

lemma preprocessEvent_nonempty:
  "value \<noteq> [] \<Longrightarrow> preprocessEvent c value = SetSelectedIndices c (accepted value)"
  by (simp add: preprocessEvent_def SetSelectedIndices_def ClearSelected_def accepted_def
        select_tokens_accepted)

lemma accepted_Nil_iff:
  "(accepted value = []) = (\<forall>tok\<in>set (Split value CHR '',''). \<forall>idx. Atoi tok \<noteq> Inr idx)"
  by (auto simp: accepted_def split: sum.splits)

lemma Atoi_examples:
  "Atoi ''x'' = Inl ErrSyntax" "Atoi '''' = Inl ErrSyntax" "Atoi ''1y'' = Inl ErrSyntax"
  "Atoi ''0'' = Inr 0" "Atoi ''1'' = Inr 1" "Atoi ''2'' = Inr 2" "Atoi ''7'' = Inr 7"
  by (simp_all add: Atoi_def ParseInt_def ParseUint_def is_digit_def digit_val_def IntSize_def)

subsection \<open>The claims\<close>

text \<open>
  C1, as the code has it. \<open>NewListBox\<close> makes the selection vector as long as the value
  list. On a widget whose selection vector is as long as its value list,
  \<open>SetSelectedIndices\<close> returns when every given index lies in \<open>[0, len(values))\<close>, and
  the two lengths are still equal; when some given index lies outside, the call does
  not ignore it: it panics with "index out of range", and it does so at the first such
  index of the list, with the indices before it selected. The vector is never resized,
  so the lengths are equal at the fault too.
\<close>

theorem SetSelectedIndices_invariant:
  assumes "length (selected c) = length (values c)"
  shows "length (selected (NewListBox ci en vs)) = length (values (NewListBox ci en vs)) \<and>
         ((\<forall>i\<in>set indices. 0 \<le> i \<and> i < int (length (values c))) \<longrightarrow>
            (\<exists>c'. SetSelectedIndices c indices = Inr c' \<and>
                  length (selected c') = length (values c'))) \<and>
         ((\<exists>i\<in>set indices. \<not> (0 \<le> i \<and> i < int (length (values c)))) \<longrightarrow>
            (\<exists>i c'. SetSelectedIndices c indices =
                      Inl (IndexOutOfRange i (length (values c)), c') \<and>
                    i \<in> set indices \<and> \<not> (0 \<le> i \<and> i < int (length (values c))) \<and>
                    length (selected c') = length (values c'))) \<and>
         (\<forall>pre i post.
            indices = pre @ i # post \<and>
            (\<forall>j\<in>set pre. 0 \<le> j \<and> j < int (length (values c))) \<and>
            \<not> (0 \<le> i \<and> i < int (length (values c))) \<longrightarrow>
            (\<exists>c'. SetSelectedIndices c indices =
                    Inl (IndexOutOfRange i (length (values c)), c') \<and>
                  SelectedIndices c' = sorted_list_of_set (set pre) \<and>
                  length (selected c') = length (values c')))"
proof -
  have new: "length (selected (NewListBox ci en vs)) = length (values (NewListBox ci en vs))"
    by (simp add: NewListBox_def)
  have ret: "\<exists>c'. SetSelectedIndices c indices = Inr c' \<and>
                  length (selected c') = length (values c')"
    if "\<forall>i\<in>set indices. 0 \<le> i \<and> i < int (length (values c))"
  proof -
    from that assms have "\<forall>i\<in>set indices. 0 \<le> i \<and> i < int (length (selected c))" by simp
    from SetSelectedIndices_returns [OF this] obtain s' where
      "SetSelectedIndices c indices = Inr (c\<lparr>selected := s'\<rparr>)"
      "length s' = length (selected c)" by blast
    with assms show ?thesis by simp
  qed
  have first: "\<exists>c'. SetSelectedIndices c indices =
                    Inl (IndexOutOfRange i (length (values c)), c') \<and>
                  SelectedIndices c' = sorted_list_of_set (set pre) \<and>
                  length (selected c') = length (values c')"
    if "indices = pre @ i # post"
      and "\<forall>j\<in>set pre. 0 \<le> j \<and> j < int (length (values c))"
      and "\<not> (0 \<le> i \<and> i < int (length (values c)))" for pre i post
  proof -
    from that assms have "\<forall>j\<in>set pre. 0 \<le> j \<and> j < int (length (selected c))"
      and "\<not> (0 \<le> i \<and> i < int (length (selected c)))" by simp_all
    from SetSelectedIndices_faults [OF this, of post] obtain s' where
      "SetSelectedIndices c (pre @ i # post) =
         Inl (IndexOutOfRange i (length (selected c)), c\<lparr>selected := s'\<rparr>)"
      "length s' = length (selected c)"
      "SelectedIndices (c\<lparr>selected := s'\<rparr>) = sorted_list_of_set (set pre)" by blast
    with assms that(1) show ?thesis by simp
  qed
  have some: "\<exists>i c'. SetSelectedIndices c indices =
                      Inl (IndexOutOfRange i (length (values c)), c') \<and>
                    i \<in> set indices \<and> \<not> (0 \<le> i \<and> i < int (length (values c))) \<and>
                    length (selected c') = length (values c')"
    if "\<exists>i\<in>set indices. \<not> (0 \<le> i \<and> i < int (length (values c)))"
  proof -
    from that obtain pre i post where
      d: "indices = pre @ i # post" "\<not> (0 \<le> i \<and> i < int (length (values c)))"
         "\<forall>j\<in>set pre. \<not> \<not> (0 \<le> j \<and> j < int (length (values c)))"
      using split_list_first_prop [of indices "\<lambda>i. \<not> (0 \<le> i \<and> i < int (length (values c)))"]
      by blast
    from d(3) have "\<forall>j\<in>set pre. 0 \<le> j \<and> j < int (length (values c))" by blast
    from first [OF d(1) this d(2)] obtain c' where
      "SetSelectedIndices c indices = Inl (IndexOutOfRange i (length (values c)), c')"
      "length (selected c') = length (values c')" by blast
    moreover have "i \<in> set indices" using d(1) by simp
    ultimately show ?thesis using d(2) by blast
  qed
  show ?thesis
  proof (intro conjI impI allI)
    show "length (selected (NewListBox ci en vs)) = length (values (NewListBox ci en vs))"
      by (rule new)
  next
    assume "\<forall>i\<in>set indices. 0 \<le> i \<and> i < int (length (values c))"
    then show "\<exists>c'. SetSelectedIndices c indices = Inr c' \<and>
                  length (selected c') = length (values c')"
      by (rule ret)
  next
    assume "\<exists>i\<in>set indices. \<not> (0 \<le> i \<and> i < int (length (values c)))"
    then show "\<exists>i c'. SetSelectedIndices c indices =
                      Inl (IndexOutOfRange i (length (values c)), c') \<and>
                    i \<in> set indices \<and> \<not> (0 \<le> i \<and> i < int (length (values c))) \<and>
                    length (selected c') = length (values c')"
      by (rule some)
  next
    fix pre i post
    assume "indices = pre @ i # post \<and>
            (\<forall>j\<in>set pre. 0 \<le> j \<and> j < int (length (values c))) \<and>
            \<not> (0 \<le> i \<and> i < int (length (values c)))"
    then show "\<exists>c'. SetSelectedIndices c indices =
                    Inl (IndexOutOfRange i (length (values c)), c') \<and>
                  SelectedIndices c' = sorted_list_of_set (set pre) \<and>
                  length (selected c') = length (values c')"
      using first [of pre i post] by blast
  qed
qed

theorem SetSelectedIndices_invariant_witness:
  "(\<exists>c'. SetSelectedIndices (NewListBox () () [''a'', ''b'', ''c'']) [2, 0] = Inr c' \<and>
         length (selected c') = length (values c')) \<and>
   (\<exists>c'. SetSelectedIndices (NewListBox () () [''a'', ''b'', ''c'']) [1, 5, 3] =
           Inl (IndexOutOfRange 5 3, c') \<and>
         SelectedIndices c' = [1] \<and> length (selected c') = length (values c'))"
proof -
  let ?c = "NewListBox () () [''a'', ''b'', ''c'']"
  have inv: "length (selected ?c) = length (values ?c)" by (simp add: NewListBox_def)
  have len: "length (values ?c) = 3" by (simp add: NewListBox_def)
  note A = SetSelectedIndices_invariant
    [OF inv, where indices = "[2, 0]", THEN conjunct2, THEN conjunct1, rule_format]
  note B = SetSelectedIndices_invariant
    [OF inv, where indices = "[1, 5, 3]", THEN conjunct2, THEN conjunct2, THEN conjunct2,
     rule_format, of "[1]" 5 "[3]"]
  have a: "\<exists>c'. SetSelectedIndices ?c [2, 0] = Inr c' \<and>
         length (selected c') = length (values c')"
    by (rule A) (auto simp: len)
  have "\<exists>c'. SetSelectedIndices ?c [1, 5, 3] =
                    Inl (IndexOutOfRange 5 (length (values ?c)), c') \<and>
                  SelectedIndices c' = sorted_list_of_set (set [1]) \<and>
                  length (selected c') = length (values c')"
    by (rule B) (auto simp: len)
  then have b: "\<exists>c'. SetSelectedIndices ?c [1, 5, 3] = Inl (IndexOutOfRange 5 3, c') \<and>
         SelectedIndices c' = [1] \<and> length (selected c') = length (values c')"
    by (simp add: len)
  from a b show ?thesis by (rule conjI)
qed

text \<open>
  C1 as stated fails: with three values, the indices \<open>[1, 3]\<close> make the call fault at
  index 3, after index 1 has been selected.
\<close>

theorem SetSelectedIndices_counterexample:
  "SetSelectedIndices (NewListBox () () [''a'', ''b'', ''c'']) [1, 3] =
     Inl (IndexOutOfRange 3 3,
          (NewListBox () () [''a'', ''b'', ''c''])\<lparr>selected := [False, True, False]\<rparr>)"
  by (simp add: SetSelectedIndices_def NewListBox_def clear_all_def store_def with_selected_def)

text \<open>
  C2, as the code has it, for every payload. The empty payload leaves the widget as it
  was. Any other payload replaces the selection: a token \<open>strconv.Atoi\<close> rejects is
  skipped and never faults, so a payload with no accepted token leaves the widget as
  \<open>ClearSelected\<close> does; when every accepted token is an index in
  \<open>[0, len(selected))\<close>, the call returns with exactly these indices selected and every
  other field unchanged; when some accepted token is out of range, the call panics
  with "index out of range" at the first such token, with the accepted tokens before
  it selected.
\<close>

theorem preprocessEvent_payload:
  "(payload = [] \<longrightarrow> preprocessEvent c payload = Inr c) \<and>
   ((\<forall>tok\<in>set (Split payload CHR '',''). \<forall>idx. Atoi tok \<noteq> Inr idx) \<longrightarrow>
      preprocessEvent c payload = Inr (if payload = [] then c else ClearSelected c)) \<and>
   (payload \<noteq> [] \<and> (\<forall>i\<in>set (accepted payload). 0 \<le> i \<and> i < int (length (selected c))) \<longrightarrow>
      (\<exists>s'. preprocessEvent c payload = Inr (c\<lparr>selected := s'\<rparr>) \<and>
            length s' = length (selected c) \<and>
            SelectedIndices (c\<lparr>selected := s'\<rparr>) = sorted_list_of_set (set (accepted payload)))) \<and>
   (\<forall>pre i post.
      payload \<noteq> [] \<and> accepted payload = pre @ i # post \<and>
      (\<forall>j\<in>set pre. 0 \<le> j \<and> j < int (length (selected c))) \<and>
      \<not> (0 \<le> i \<and> i < int (length (selected c))) \<longrightarrow>
      (\<exists>s'. preprocessEvent c payload =
              Inl (IndexOutOfRange i (length (selected c)), c\<lparr>selected := s'\<rparr>) \<and>
            length s' = length (selected c) \<and>
            SelectedIndices (c\<lparr>selected := s'\<rparr>) = sorted_list_of_set (set pre)))"
proof (intro conjI impI allI)
  assume "payload = []"
  then show "preprocessEvent c payload = Inr c" by (simp add: preprocessEvent_def)
next
  assume "\<forall>tok\<in>set (Split payload CHR '',''). \<forall>idx. Atoi tok \<noteq> Inr idx"
  from select_tokens_unparseable [OF this]
  show "preprocessEvent c payload = Inr (if payload = [] then c else ClearSelected c)"
    by (simp add: preprocessEvent_def with_selected_def ClearSelected_def)
next
  assume "payload \<noteq> [] \<and> (\<forall>i\<in>set (accepted payload). 0 \<le> i \<and> i < int (length (selected c)))"
  then have v: "payload \<noteq> []"
    and r: "\<forall>i\<in>set (accepted payload). 0 \<le> i \<and> i < int (length (selected c))" by simp_all
  from SetSelectedIndices_returns [OF r]
  show "\<exists>s'. preprocessEvent c payload = Inr (c\<lparr>selected := s'\<rparr>) \<and>
            length s' = length (selected c) \<and>
            SelectedIndices (c\<lparr>selected := s'\<rparr>) = sorted_list_of_set (set (accepted payload))"
    by (simp add: preprocessEvent_nonempty [OF v])
next
  fix pre i post
  assume "payload \<noteq> [] \<and> accepted payload = pre @ i # post \<and>
      (\<forall>j\<in>set pre. 0 \<le> j \<and> j < int (length (selected c))) \<and>
      \<not> (0 \<le> i \<and> i < int (length (selected c)))"
  then have v: "payload \<noteq> []" and a: "accepted payload = pre @ i # post"
    and p: "\<forall>j\<in>set pre. 0 \<le> j \<and> j < int (length (selected c))"
    and o: "\<not> (0 \<le> i \<and> i < int (length (selected c)))" by simp_all
  from SetSelectedIndices_faults [OF p o, of post]
  show "\<exists>s'. preprocessEvent c payload =
              Inl (IndexOutOfRange i (length (selected c)), c\<lparr>selected := s'\<rparr>) \<and>
            length s' = length (selected c) \<and>
            SelectedIndices (c\<lparr>selected := s'\<rparr>) = sorted_list_of_set (set pre)"
    by (simp add: preprocessEvent_nonempty [OF v] a)
qed

theorem preprocessEvent_payload_witness:
  "preprocessEvent ((NewListBox () () [''a'', ''b'', ''c''])\<lparr>selected := [True, False, False]\<rparr>) [] =
     Inr ((NewListBox () () [''a'', ''b'', ''c''])\<lparr>selected := [True, False, False]\<rparr>) \<and>
   preprocessEvent ((NewListBox () () [''a'', ''b'', ''c''])\<lparr>selected := [True, False, False]\<rparr>) ''x,,1y'' =
     Inr ((NewListBox () () [''a'', ''b'', ''c''])\<lparr>selected := [False, False, False]\<rparr>) \<and>
   (\<exists>s'. preprocessEvent
            ((NewListBox () () [''a'', ''b'', ''c''])\<lparr>selected := [True, False, False]\<rparr>) ''2,x,1,'' =
          Inr ((NewListBox () () [''a'', ''b'', ''c''])\<lparr>selected := s'\<rparr>) \<and>
        SelectedIndices ((NewListBox () () [''a'', ''b'', ''c''])\<lparr>selected := s'\<rparr>) = [1, 2]) \<and>
   (\<exists>s'. preprocessEvent
            ((NewListBox () () [''a'', ''b'', ''c''])\<lparr>selected := [True, False, False]\<rparr>) ''x,1,7,0'' =
          Inl (IndexOutOfRange 7 3, (NewListBox () () [''a'', ''b'', ''c''])\<lparr>selected := s'\<rparr>) \<and>
        SelectedIndices ((NewListBox () () [''a'', ''b'', ''c''])\<lparr>selected := s'\<rparr>) = [1])"
proof -
  let ?c = "(NewListBox () () [''a'', ''b'', ''c''])\<lparr>selected := [True, False, False]\<rparr>"
  have len: "length (selected ?c) = 3" by simp
  have upd: "\<And>s'. ?c\<lparr>selected := s'\<rparr> = (NewListBox () () [''a'', ''b'', ''c''])\<lparr>selected := s'\<rparr>"
    by simp
  have acc1: "accepted ''2,x,1,'' = [2, 1]"
    by (simp add: accepted_def Split_def Atoi_examples)
  have acc2: "accepted ''x,1,7,0'' = [1] @ 7 # [0]"
    by (simp add: accepted_def Split_def Atoi_examples)
  note A = preprocessEvent_payload [where c = ?c and payload = "[]", THEN conjunct1, rule_format]
  note B = preprocessEvent_payload
    [where c = ?c and payload = "''x,,1y''", THEN conjunct2, THEN conjunct1, rule_format]
  note C = preprocessEvent_payload
    [where c = ?c and payload = "''2,x,1,''", THEN conjunct2, THEN conjunct2, THEN conjunct1,
     rule_format]
  note D = preprocessEvent_payload
    [where c = ?c and payload = "''x,1,7,0''", THEN conjunct2, THEN conjunct2, THEN conjunct2,
     rule_format, of "[1]" 7 "[0]"]
  have a: "preprocessEvent ?c [] = Inr ?c" by (rule A) simp
  have "preprocessEvent ?c ''x,,1y'' = Inr (if ''x,,1y'' = [] then ?c else ClearSelected ?c)"
    by (rule B) (auto simp: Split_def Atoi_examples)
  then have b: "preprocessEvent ?c ''x,,1y'' =
      Inr ((NewListBox () () [''a'', ''b'', ''c''])\<lparr>selected := [False, False, False]\<rparr>)"
    by (simp add: ClearSelected_def clear_all_def)
  have "\<exists>s'. preprocessEvent ?c ''2,x,1,'' = Inr (?c\<lparr>selected := s'\<rparr>) \<and>
            length s' = length (selected ?c) \<and>
            SelectedIndices (?c\<lparr>selected := s'\<rparr>) = sorted_list_of_set (set (accepted ''2,x,1,''))"
    by (rule C) (auto simp: acc1)
  then have c: "\<exists>s'. preprocessEvent ?c ''2,x,1,'' =
          Inr ((NewListBox () () [''a'', ''b'', ''c''])\<lparr>selected := s'\<rparr>) \<and>
        SelectedIndices ((NewListBox () () [''a'', ''b'', ''c''])\<lparr>selected := s'\<rparr>) = [1, 2]"
    unfolding acc1 sorted_list_of_set_sort_remdups upd by auto
  have "\<exists>s'. preprocessEvent ?c ''x,1,7,0'' =
              Inl (IndexOutOfRange 7 (length (selected ?c)), ?c\<lparr>selected := s'\<rparr>) \<and>
            length s' = length (selected ?c) \<and>
            SelectedIndices (?c\<lparr>selected := s'\<rparr>) = sorted_list_of_set (set [1])"
    by (rule D) (auto simp: acc2)
  then have d: "\<exists>s'. preprocessEvent ?c ''x,1,7,0'' =
          Inl (IndexOutOfRange 7 3, (NewListBox () () [''a'', ''b'', ''c''])\<lparr>selected := s'\<rparr>) \<and>
        SelectedIndices ((NewListBox () () [''a'', ''b'', ''c''])\<lparr>selected := s'\<rparr>) = [1]"
    unfolding upd by (auto simp: len)
  from a b c d show ?thesis by (intro conjI)
qed

text \<open>
  C2 as stated fails, at both of its parts. With the first of three values selected,
  the unparseable payload \<open>x\<close> returns without a fault, but the selection is not what it
  was: nothing is selected any more. And the payload \<open>x,7\<close>, with one unparseable token
  and one index out of range, raises: the call panics at index 7.
\<close>

theorem preprocessEvent_counterexample:
  "SelectedIndices ((NewListBox () () [''a'', ''b'', ''c''])\<lparr>selected := [True, False, False]\<rparr>) = [0] \<and>
   preprocessEvent ((NewListBox () () [''a'', ''b'', ''c''])\<lparr>selected := [True, False, False]\<rparr>) ''x'' =
     Inr ((NewListBox () () [''a'', ''b'', ''c''])\<lparr>selected := [False, False, False]\<rparr>) \<and>
   SelectedIndices ((NewListBox () () [''a'', ''b'', ''c''])\<lparr>selected := [False, False, False]\<rparr>) = [] \<and>
   preprocessEvent ((NewListBox () () [''a'', ''b'', ''c''])\<lparr>selected := [True, False, False]\<rparr>) ''x,7'' =
     Inl (IndexOutOfRange 7 3,
          (NewListBox () () [''a'', ''b'', ''c''])\<lparr>selected := [False, False, False]\<rparr>)"
  by (simp add: preprocessEvent_def Split_def Atoi_examples ClearSelected_def clear_all_def
        NewListBox_def with_selected_def SelectedIndices_def store_def)

text \<open>
  C6. On a ListBox with the values \<open>a\<close>, \<open>b\<close>, \<open>c\<close> and \<open>multi = false\<close>, whatever was
  selected before, preprocessing the submitted value \<open>1\<close> returns without a fault, and
  afterwards \<open>SelectedValue()\<close> is \<open>b\<close> and \<open>SelectedIndices()\<close> is \<open>[1]\<close>.
\<close>

theorem preprocessEvent_scenario:
  assumes "values c = [''a'', ''b'', ''c'']" and "length (selected c) = length (values c)"
    and "multi c = False"
  shows "\<exists>c'. preprocessEvent c ''1'' = Inr c' \<and> SelectedValue c' = Inr ''b'' \<and>
              SelectedIndices c' = [1]"
proof -
  from assms obtain x y z where "selected c = [x, y, z]"
    by (cases "selected c"; simp; rename_tac a as; case_tac as; simp; rename_tac b bs; case_tac bs; simp)
  with assms show ?thesis
    by (simp add: preprocessEvent_def Split_def Atoi_def ParseInt_def ParseUint_def is_digit_def
        digit_val_def IntSize_def ClearSelected_def clear_all_def with_selected_def store_def
        SelectedIndices_def SelectedValue_def index_def)
qed

theorem preprocessEvent_scenario_witness:
  "\<exists>c'. preprocessEvent (NewListBox () () [''a'', ''b'', ''c'']) ''1'' = Inr c' \<and>
        SelectedValue c' = Inr ''b'' \<and> SelectedIndices c' = [1]"
  using preprocessEvent_scenario [of "NewListBox () () [''a'', ''b'', ''c'']"]
  by (simp add: NewListBox_def)

text \<open>
  C9. Calling \<open>ClearSelected\<close> twice in a row leaves the widget in exactly the state
  one call leaves it in: every field, the embedded ones included, is the same.
\<close>

theorem ClearSelected_idempotent:
  "ClearSelected (ClearSelected c) = ClearSelected c"
  by (simp add: ClearSelected_def clear_all_idem)

text \<open>
  C10. \<open>SetSelectedIndices\<close> does not look at the \<open>multi\<close> flag. Whatever \<open>SetMulti\<close>
  has set, and whatever was selected before: a call with indices that are all in range
  returns; and after every call that returns, the flag is what it was and
  \<open>SelectedIndices()\<close> is exactly the set of the given in-range indices, in ascending
  order, however many they are.
\<close>

theorem SetSelectedIndices_ignores_Multi:
  "((\<forall>i\<in>set indices. 0 \<le> i \<and> i < int (length (selected c))) \<longrightarrow>
      (\<exists>c'. SetSelectedIndices (SetMulti c m) indices = Inr c')) \<and>
   (\<forall>c'. SetSelectedIndices (SetMulti c m) indices = Inr c' \<longrightarrow>
      Multi c' = m \<and>
      SelectedIndices c' =
        sorted_list_of_set
          (set (filter (\<lambda>i. 0 \<le> i \<and> i < int (length (selected c))) indices)))"
proof (intro conjI allI impI)
  assume "\<forall>i\<in>set indices. 0 \<le> i \<and> i < int (length (selected c))"
  then have "\<forall>i\<in>set indices. 0 \<le> i \<and> i < int (length (clear_all (selected c)))"
    by (simp add: length_clear_all)
  from select_all_in_range [OF this] obtain s' where
    "select_all (clear_all (selected c)) indices = Inr s'" by blast
  then show "\<exists>c'. SetSelectedIndices (SetMulti c m) indices = Inr c'"
    by (simp add: SetSelectedIndices_def with_selected_def SetMulti_def)
next
  fix c'
  assume run: "SetSelectedIndices (SetMulti c m) indices = Inr c'"
  let ?z = "clear_all (selected c)"
  have in_range: "\<forall>i\<in>set indices. 0 \<le> i \<and> i < int (length ?z)"
  proof (rule ccontr)
    assume "\<not> (\<forall>i\<in>set indices. 0 \<le> i \<and> i < int (length ?z))"
    then have "\<exists>i\<in>set indices. \<not> (0 \<le> i \<and> i < int (length ?z))" by blast
    from select_all_out_of_range [OF this] obtain i s' where
      "select_all ?z indices = Inl (IndexOutOfRange i (length ?z), s')" by blast
    with run show False
      by (simp add: SetSelectedIndices_def with_selected_def SetMulti_def)
  qed
  from select_all_in_range [OF this] obtain s' where
    s': "select_all ?z indices = Inr s'" "length s' = length ?z"
        "\<forall>j<length ?z. s' ! j = (?z ! j \<or> int j \<in> set indices)" by blast
  from run s'(1) have c': "c' = (SetMulti c m)\<lparr>selected := s'\<rparr>"
    by (simp add: SetSelectedIndices_def with_selected_def SetMulti_def)
  have sel: "\<forall>j<length s'. s' ! j = (int j \<in> set indices)"
    using s'(2,3) by (simp add: length_clear_all clear_all_nth)
  have "set (SelectedIndices c') = set indices"
  proof
    show "set (SelectedIndices c') \<subseteq> set indices"
      using sel by (auto simp: set_SelectedIndices c')
    show "set indices \<subseteq> set (SelectedIndices c')"
    proof
      fix i assume i: "i \<in> set indices"
      with in_range have "0 \<le> i" "nat i < length s'" using s'(2) by auto
      with i sel show "i \<in> set (SelectedIndices c')"
        by (auto simp: set_SelectedIndices c' intro!: exI [of _ "nat i"])
    qed
  qed
  moreover have "filter (\<lambda>i. 0 \<le> i \<and> i < int (length (selected c))) indices = indices"
    using in_range by (simp add: length_clear_all)
  ultimately show "SelectedIndices c' =
      sorted_list_of_set
        (set (filter (\<lambda>i. 0 \<le> i \<and> i < int (length (selected c))) indices))"
    using sorted_SelectedIndices [of c']
    by (metis sorted_list_of_set.idem_if_sorted_distinct)
  show "Multi c' = m" by (simp add: c' Multi_def SetMulti_def)
qed

theorem SetSelectedIndices_ignores_Multi_witness:
  "\<exists>c'. SetSelectedIndices (SetMulti (NewListBox () () [''a'', ''b'', ''c'']) False) [2, 0, 2] =
          Inr c' \<and>
        Multi c' = False \<and> SelectedIndices c' = [0, 2]"
  using SetSelectedIndices_ignores_Multi
    [of "[2, 0, 2]" "NewListBox () () [''a'', ''b'', ''c'']" False,
     unfolded sorted_list_of_set_sort_remdups]
  by (simp add: NewListBox_def) blast

section \<open>Properties of the client script\<close>

subsection \<open>Auxiliary facts\<close>

lemma js_strict_eq_NaN: "js_strict_eq NaN y = False"
  by (cases y) simp_all

lemma se_modKeys_NaN: "se_modKeys k event = Number NaN"
  by (simp add: se_modKeys_def js_plus_def Let_def)






lemma setupTimer_replace:
  assumes "timers s compId = Some t" and "\<not> same_parameters t js' timeout' repeat' reset'"
    and "active'"
  shows "setupTimer compId js' timeout' repeat' active' reset' s =
           s\<lparr>timers := (timers s)(compId \<mapsto>
                 \<lparr>js = js', timeout = timeout', repeat = repeat', reset = reset',
                  timer_id = next_handle s\<rparr>),
             active := ((active s)(timer_id t := None))(next_handle s \<mapsto>
                 (if repeat' then Interval js' timeout' else Timeout js' timeout')),
             next_handle := Suc (next_handle s),
             calls := calls s @ [clear_call t, set_call js' timeout' repeat' (next_handle s)]\<rparr>"
  using assms
  by (simp add: setupTimer_def changed_def same_parameters_def create_timer_def
        clearInterval_def clearTimeout_def setInterval_def setTimeout_def clear_call_def
        set_call_def Let_def)

lemma setupTimer_inactive:
  assumes "\<not> active'"
  shows "setupTimer compId js' timeout' repeat' active' reset' s =
           (case timers s compId of
              None \<Rightarrow> s
            | Some t \<Rightarrow>
                s\<lparr>timers := (timers s)(compId := None),
                  active := (active s)(timer_id t := None),
                  calls := calls s @ [clear_call t]\<rparr>)"
  using assms
  by (auto simp add: setupTimer_def changed_def create_timer_def
        clearInterval_def clearTimeout_def clear_call_def Let_def split: option.splits)

lemma setupTimer_keep:
  assumes "timers s compId = Some t" and "same_parameters t js' timeout' repeat' reset'"
    and "active'"
  shows "setupTimer compId js' timeout' repeat' active' reset' s = s"
  using assms by (simp add: setupTimer_def changed_def same_parameters_def Let_def)

lemma setupTimer_install:
  assumes "timers s compId = None" and "active'"
  shows "setupTimer compId js' timeout' repeat' active' reset' s =
           s\<lparr>timers := (timers s)(compId \<mapsto>
                 \<lparr>js = js', timeout = timeout', repeat = repeat', reset = reset',
                  timer_id = next_handle s\<rparr>),
             active := (active s)(next_handle s \<mapsto>
                 (if repeat' then Interval js' timeout' else Timeout js' timeout')),
             next_handle := Suc (next_handle s),
             calls := calls s @ [set_call js' timeout' repeat' (next_handle s)]\<rparr>"
  using assms
  by (simp add: setupTimer_def create_timer_def setInterval_def setTimeout_def set_call_def)

lemma one_timer_remove:
  assumes inv: "one_timer_per_id s" and t: "timers s compId = Some t"
  shows "one_timer_per_id
           (s\<lparr>timers := (timers s)(compId := None), active := (active s)(timer_id t := None),
              calls := cs\<rparr>)"
proof -
  from inv have a: "\<And>h. h \<in> dom (active s) \<Longrightarrow> h < next_handle s"
    and b: "\<And>k u. timers s k = Some u \<Longrightarrow> timer_id u < next_handle s"
    and c: "\<And>k k' u u'. timers s k = Some u \<Longrightarrow> timers s k' = Some u' \<Longrightarrow>
              timer_id u = timer_id u' \<Longrightarrow> k = k'"
    and d: "\<And>h. h \<in> dom (active s) \<Longrightarrow> \<exists>k u. timers s k = Some u \<and> timer_id u = h"
    unfolding one_timer_per_id_def by blast+
  have d': "\<exists>k u. k \<noteq> compId \<and> timers s k = Some u \<and> timer_id u = h"
    if "h \<in> dom (active s)" "h \<noteq> timer_id t" for h
  proof -
    from d [OF that(1)] obtain k u where ku: "timers s k = Some u" "timer_id u = h" by blast
    with that(2) t have "k \<noteq> compId" by auto
    with ku show ?thesis by blast
  qed
  show ?thesis
    unfolding one_timer_per_id_def
  proof (intro conjI)
    show "\<forall>h\<in>dom (active (s\<lparr>timers := (timers s)(compId := None),
            active := (active s)(timer_id t := None), calls := cs\<rparr>)).
          h < next_handle (s\<lparr>timers := (timers s)(compId := None),
            active := (active s)(timer_id t := None), calls := cs\<rparr>)"
      using a by (auto split: if_splits)
    show "\<forall>k u. timers (s\<lparr>timers := (timers s)(compId := None),
            active := (active s)(timer_id t := None), calls := cs\<rparr>) k = Some u \<longrightarrow>
          timer_id u < next_handle (s\<lparr>timers := (timers s)(compId := None),
            active := (active s)(timer_id t := None), calls := cs\<rparr>)"
      using b by (auto split: if_splits)
    show "\<forall>k k' u u'. timers (s\<lparr>timers := (timers s)(compId := None),
            active := (active s)(timer_id t := None), calls := cs\<rparr>) k = Some u \<and>
          timers (s\<lparr>timers := (timers s)(compId := None),
            active := (active s)(timer_id t := None), calls := cs\<rparr>) k' = Some u' \<and>
          timer_id u = timer_id u' \<longrightarrow> k = k'"
      using c by (auto split: if_splits)
    show "\<forall>h\<in>dom (active (s\<lparr>timers := (timers s)(compId := None),
            active := (active s)(timer_id t := None), calls := cs\<rparr>)).
          \<exists>k u. timers (s\<lparr>timers := (timers s)(compId := None),
            active := (active s)(timer_id t := None), calls := cs\<rparr>) k = Some u \<and>
          timer_id u = h"
      using d' by (auto split: if_splits)
  qed
qed

lemma one_timer_add:
  assumes inv: "one_timer_per_id s" and t: "timers s compId = None"
    and tm: "timer_id tm = next_handle s"
  shows "one_timer_per_id
           (s\<lparr>timers := (timers s)(compId \<mapsto> tm),
              active := (active s)(next_handle s \<mapsto> sch),
              next_handle := Suc (next_handle s), calls := cs\<rparr>)"
proof -
  from inv have a: "\<And>h. h \<in> dom (active s) \<Longrightarrow> h < next_handle s"
    and b: "\<And>k u. timers s k = Some u \<Longrightarrow> timer_id u < next_handle s"
    and c: "\<And>k k' u u'. timers s k = Some u \<Longrightarrow> timers s k' = Some u' \<Longrightarrow>
              timer_id u = timer_id u' \<Longrightarrow> k = k'"
    and d: "\<And>h. h \<in> dom (active s) \<Longrightarrow> \<exists>k u. timers s k = Some u \<and> timer_id u = h"
    unfolding one_timer_per_id_def by blast+
  have d': "\<exists>k u. k \<noteq> compId \<and> timers s k = Some u \<and> timer_id u = h"
    if "h \<in> dom (active s)" for h
  proof -
    from d [OF that] obtain k u where ku: "timers s k = Some u" "timer_id u = h" by blast
    with t have "k \<noteq> compId" by auto
    with ku show ?thesis by blast
  qed
  let ?s' = "s\<lparr>timers := (timers s)(compId \<mapsto> tm),
              active := (active s)(next_handle s \<mapsto> sch),
              next_handle := Suc (next_handle s), calls := cs\<rparr>"
  have 1: "\<forall>h\<in>dom (active ?s'). h < next_handle ?s'"
    using a by (auto simp: less_Suc_eq split: if_splits)
  have 2: "\<forall>k u. timers ?s' k = Some u \<longrightarrow> timer_id u < next_handle ?s'"
    using b tm by (auto simp: less_Suc_eq split: if_splits)
  have 3: "\<forall>k k' u u'. timers ?s' k = Some u \<and> timers ?s' k' = Some u' \<and>
             timer_id u = timer_id u' \<longrightarrow> k = k'"
  proof (intro allI impI)
    fix k k' u u'
    assume h: "timers ?s' k = Some u \<and> timers ?s' k' = Some u' \<and> timer_id u = timer_id u'"
    show "k = k'"
    proof (cases "k = compId"; cases "k' = compId")
      assume "k = compId" "k' = compId" then show ?thesis by simp
    next
      assume k: "k = compId" "k' \<noteq> compId"
      with h have "timer_id u = next_handle s" "timers s k' = Some u'" using tm by auto
      with b [of k' u'] h show ?thesis by simp
    next
      assume k: "k \<noteq> compId" "k' = compId"
      with h have "timer_id u' = next_handle s" "timers s k = Some u" using tm by auto
      with b [of k u] h show ?thesis by simp
    next
      assume "k \<noteq> compId" "k' \<noteq> compId"
      with h c [of k u k' u'] show ?thesis by simp
    qed
  qed
  have 4: "\<forall>h\<in>dom (active ?s'). \<exists>k u. timers ?s' k = Some u \<and> timer_id u = h"
  proof
    fix h assume "h \<in> dom (active ?s')"
    then consider "h = next_handle s" | "h \<in> dom (active s)" by (auto split: if_splits)
    then show "\<exists>k u. timers ?s' k = Some u \<and> timer_id u = h"
    proof cases
      case 1
      then show ?thesis using tm by (intro exI [of _ compId] exI [of _ tm]) simp
    next
      case 2
      from d' [OF this] obtain k u where "k \<noteq> compId" "timers s k = Some u" "timer_id u = h"
        by blast
      then show ?thesis by (intro exI [of _ k] exI [of _ u]) simp
    qed
  qed
  from 1 2 3 4 show ?thesis unfolding one_timer_per_id_def by blast
qed

lemma one_timer_per_id_new_page: "one_timer_per_id (new_page h)"
  by (simp add: one_timer_per_id_def new_page_def)

lemma setupTimer_one_timer_per_id:
  assumes inv: "one_timer_per_id s"
  shows "one_timer_per_id (setupTimer compId js' timeout' repeat' active' reset' s)"
proof (cases "timers s compId")
  case None
  show ?thesis
  proof (cases active')
    case True
    show ?thesis
      unfolding setupTimer_install [OF None True]
      by (rule one_timer_add [OF inv None]) simp
  next
    case False
    then show ?thesis using inv None by (simp add: setupTimer_inactive)
  qed
next
  case (Some t)
  show ?thesis
  proof (cases active')
    case False
    show ?thesis
      unfolding setupTimer_inactive [OF False] using one_timer_remove [OF inv Some]
      by (simp add: Some)
  next
    case True
    show ?thesis
    proof (cases "same_parameters t js' timeout' repeat' reset'")
      case same: True
      then show ?thesis using inv by (simp add: setupTimer_keep [OF Some same True])
    next
      case diff: False
      let ?s1 = "s\<lparr>timers := (timers s)(compId := None),
                   active := (active s)(timer_id t := None), calls := calls s\<rparr>"
      have inv1: "one_timer_per_id ?s1" by (rule one_timer_remove [OF inv Some])
      have "one_timer_per_id
              (?s1\<lparr>timers := (timers ?s1)(compId \<mapsto>
                      \<lparr>js = js', timeout = timeout', repeat = repeat', reset = reset',
                       timer_id = next_handle s\<rparr>),
                    active := (active ?s1)(next_handle ?s1 \<mapsto>
                      (if repeat' then Interval js' timeout' else Timeout js' timeout')),
                    next_handle := Suc (next_handle ?s1),
                    calls := calls s @ [clear_call t, set_call js' timeout' repeat' (next_handle s)]\<rparr>)"
        by (rule one_timer_add [OF inv1]) simp_all
      then show ?thesis
        unfolding setupTimer_replace [OF Some diff True] by simp
    qed
  qed
qed

lemma decimal_60000: "decimal 60000 = ''60000''"
  by code_simp

lemma decimal_7: "decimal 7 = ''7''"
  by code_simp

subsection \<open>The claims\<close>

text \<open>
  C3. An empty response body makes \<open>procEresp\<close> raise an alert. \<open>split\<close> returns one
  empty piece for the empty string, never no piece, so the alert is not the one of
  the test \<open>actions.length == 0\<close>: the empty piece has no response code, \<open>parseInt\<close>
  gives \<open>NaN\<close>, no case of the \<open>switch\<close> matches, and the \<open>default\<close> case alerts
  "Unknown response code:". Nothing else happens.
\<close>

theorem procEresp_empty_body:
  "procEresp k pathApp '''' = [Alert ''Unknown response code:'']"
  by (simp add: procEresp_def proc_action_def js_split_def parseInt_def js_strict_eq_NaN)

text \<open>
  C4, evaluated on the code: for an event with no modifier key held down, the value of
  \<open>modKeys\<close> is \<open>NaN\<close>, not 0, and the request carries the text \<open>NaN\<close> in the
  modifier-key field: \<open>var modKeys;\<close> leaves the variable \<open>undefined\<close>, and
  \<open>undefined + 0\<close> is \<open>NaN\<close>.
\<close>

theorem se_modKeys_no_modifier:
  "se_modKeys k (dom_event False False False False) = Number NaN \<and>
   se_modKeys_data pModKeys k (dom_event False False False False) = ''&'' @ pModKeys @ ''=NaN''"
  by (simp add: se_modKeys_NaN se_modKeys_data_def str_plus_def)



text \<open>
  C7. \<open>setupTimer\<close> on the page \<open>s\<close>. If the id has a timer \<open>t\<close>, the parameters differ
  from those of \<open>t\<close> and \<open>active\<close> is true, the browser is called twice, first to clear
  \<open>t\<close> and then to start the new timer, which the table records. If \<open>active\<close> is false,
  a timer of the id is cleared and taken out of the table, and nothing is started. If
  the id has a timer of the same parameters and \<open>active\<close> is true, nothing changes and
  no call is made. And the page has at most one timer per component id: it has when the
  script starts, and every call of \<open>setupTimer\<close> keeps it so.
\<close>

theorem setupTimer_clear_and_replace:
  "(timers s compId = Some t \<and> \<not> same_parameters t js' timeout' repeat' reset' \<and> active' \<longrightarrow>
      setupTimer compId js' timeout' repeat' active' reset' s =
        s\<lparr>timers := (timers s)(compId \<mapsto>
              \<lparr>js = js', timeout = timeout', repeat = repeat', reset = reset',
               timer_id = next_handle s\<rparr>),
          active := ((active s)(timer_id t := None))(next_handle s \<mapsto>
              (if repeat' then Interval js' timeout' else Timeout js' timeout')),
          next_handle := Suc (next_handle s),
          calls := calls s @ [clear_call t, set_call js' timeout' repeat' (next_handle s)]\<rparr>) \<and>
   (\<not> active' \<longrightarrow>
      setupTimer compId js' timeout' repeat' active' reset' s =
        (case timers s compId of
           None \<Rightarrow> s
         | Some t \<Rightarrow>
             s\<lparr>timers := (timers s)(compId := None),
               active := (active s)(timer_id t := None),
               calls := calls s @ [clear_call t]\<rparr>)) \<and>
   (timers s compId = Some t \<and> same_parameters t js' timeout' repeat' reset' \<and> active' \<longrightarrow>
      setupTimer compId js' timeout' repeat' active' reset' s = s) \<and>
   one_timer_per_id (new_page h) \<and>
   (one_timer_per_id s \<longrightarrow>
      one_timer_per_id (setupTimer compId js' timeout' repeat' active' reset' s))"
  using setupTimer_replace [of s compId t js' timeout' repeat' reset' active']
    setupTimer_inactive [of active' compId js' timeout' repeat' reset' s]
    setupTimer_keep [of s compId t js' timeout' repeat' reset' active']
    setupTimer_one_timer_per_id [of s compId js' timeout' repeat' active' reset']
    one_timer_per_id_new_page [of h]
  by blast

theorem setupTimer_clear_and_replace_witness:
  "calls (setupTimer 7 ''checkSession(7)'' 30000 True True False
      \<lparr>timers = [7 \<mapsto> \<lparr>js = ''checkSession(7)'', timeout = 60000, repeat = True,
                        reset = False, timer_id = 1\<rparr>],
       active = [1 \<mapsto> Interval ''checkSession(7)'' 60000],
       next_handle = 2,
       calls = [SetInterval ''checkSession(7)'' 60000 1]\<rparr>) =
     [SetInterval ''checkSession(7)'' 60000 1, ClearInterval 1,
      SetInterval ''checkSession(7)'' 30000 2] \<and>
   calls (setupTimer 7 ''checkSession(7)'' 60000 True False False
      \<lparr>timers = [7 \<mapsto> \<lparr>js = ''checkSession(7)'', timeout = 60000, repeat = True,
                        reset = False, timer_id = 1\<rparr>],
       active = [1 \<mapsto> Interval ''checkSession(7)'' 60000],
       next_handle = 2,
       calls = [SetInterval ''checkSession(7)'' 60000 1]\<rparr>) =
     [SetInterval ''checkSession(7)'' 60000 1, ClearInterval 1] \<and>
   setupTimer 7 ''checkSession(7)'' 60000 True True False
      \<lparr>timers = [7 \<mapsto> \<lparr>js = ''checkSession(7)'', timeout = 60000, repeat = True,
                        reset = False, timer_id = 1\<rparr>],
       active = [1 \<mapsto> Interval ''checkSession(7)'' 60000],
       next_handle = 2,
       calls = [SetInterval ''checkSession(7)'' 60000 1]\<rparr> =
      \<lparr>timers = [7 \<mapsto> \<lparr>js = ''checkSession(7)'', timeout = 60000, repeat = True,
                        reset = False, timer_id = 1\<rparr>],
       active = [1 \<mapsto> Interval ''checkSession(7)'' 60000],
       next_handle = 2,
       calls = [SetInterval ''checkSession(7)'' 60000 1]\<rparr> \<and>
   one_timer_per_id (setupTimer 7 ''checkSession(7)'' 30000 True True False
      \<lparr>timers = [7 \<mapsto> \<lparr>js = ''checkSession(7)'', timeout = 60000, repeat = True,
                        reset = False, timer_id = 1\<rparr>],
       active = [1 \<mapsto> Interval ''checkSession(7)'' 60000],
       next_handle = 2,
       calls = [SetInterval ''checkSession(7)'' 60000 1]\<rparr>)"
proof -
  let ?t1 = "\<lparr>js = ''checkSession(7)'', timeout = 60000, repeat = True,
              reset = False, timer_id = 1\<rparr>"
  let ?s1 = "\<lparr>timers = [7 \<mapsto> ?t1],
       active = [1 \<mapsto> Interval ''checkSession(7)'' 60000],
       next_handle = 2,
       calls = [SetInterval ''checkSession(7)'' 60000 1]\<rparr>"
  have inv: "one_timer_per_id ?s1"
    by (auto simp add: one_timer_per_id_def split: if_splits)
  have t: "timers ?s1 7 = Some ?t1" by simp
  have diff: "\<not> same_parameters ?t1 ''checkSession(7)'' 30000 True False"
    by (simp add: same_parameters_def)
  have same: "same_parameters ?t1 ''checkSession(7)'' 60000 True False"
    by (simp add: same_parameters_def)
  note A = setupTimer_clear_and_replace
    [where s = ?s1 and compId = 7 and t = ?t1 and js' = "''checkSession(7)''"
       and timeout' = 30000 and repeat' = True and reset' = False and active' = True]
  note B = setupTimer_clear_and_replace
    [where s = ?s1 and compId = 7 and t = ?t1 and js' = "''checkSession(7)''"
       and timeout' = 60000 and repeat' = True and reset' = False and active' = False]
  note C = setupTimer_clear_and_replace
    [where s = ?s1 and compId = 7 and t = ?t1 and js' = "''checkSession(7)''"
       and timeout' = 60000 and repeat' = True and reset' = False and active' = True]
  from A t diff have a: "setupTimer 7 ''checkSession(7)'' 30000 True True False ?s1 =
      ?s1\<lparr>timers := (timers ?s1)(7 \<mapsto>
              \<lparr>js = ''checkSession(7)'', timeout = 30000, repeat = True, reset = False,
               timer_id = next_handle ?s1\<rparr>),
          active := ((active ?s1)(timer_id ?t1 := None))(next_handle ?s1 \<mapsto>
              (if True then Interval ''checkSession(7)'' 30000 else Timeout ''checkSession(7)'' 30000)),
          next_handle := Suc (next_handle ?s1),
          calls := calls ?s1 @ [clear_call ?t1, set_call ''checkSession(7)'' 30000 True (next_handle ?s1)]\<rparr>"
    by blast
  from A inv have a': "one_timer_per_id (setupTimer 7 ''checkSession(7)'' 30000 True True False ?s1)"
    by blast
  from B have b: "setupTimer 7 ''checkSession(7)'' 60000 True False False ?s1 =
        (case timers ?s1 7 of
           None \<Rightarrow> ?s1
         | Some t \<Rightarrow>
             ?s1\<lparr>timers := (timers ?s1)(7 := None),
               active := (active ?s1)(timer_id t := None),
               calls := calls ?s1 @ [clear_call t]\<rparr>)"
    by blast
  from C t same have c: "setupTimer 7 ''checkSession(7)'' 60000 True True False ?s1 = ?s1"
    by blast
  show ?thesis
    apply (intro conjI)
       apply (subst a, simp add: clear_call_def set_call_def)
      apply (subst b, simp add: clear_call_def)
     apply (rule c)
    apply (rule a')
    done
qed

text \<open>
  C8. With the byte strings and \<open>Writev\<close> as the comment in \<open>Render\<close> shows them
  (the script opens with \<open><script>setupTimer(\<close>, integers are written in decimal,
  booleans as \<open>true\<close> and \<open>false\<close>), the markup of a session monitor holds the script
  \<open>setupTimer(id,"checkSession(id)",60000,true,true,false);checkSession(id);\<close>: a timer
  of 60000 ms, repeating, active, not reset, that calls \<open>checkSession\<close> on the
  component's id, and one call of \<open>checkSession\<close> right away.
\<close>

theorem Render_script:
  assumes "strScriptOp w = ''<script>setupTimer(''" and "strScriptCl w = '');</script>''"
    and "strComma w = '',''" and "strQuote w = [CHR 0x22]"
    and "strJsParamCl w = '')'' @ [CHR 0x22]" and "strParenCl w = '')''"
    and "strSemicol w = '';''"
    and "Writev_int w 60000 = ''60000''"
    and "Writev_bool w True = ''true''" and "Writev_bool w False = ''false''"
  shows "Render w cid =
           strSpanOp w @ renderAttrsAndStyle w @ renderEHandlers w @ strGT w @
           ''<span></span>'' @
           ''<script>setupTimer('' @ Writev_int w cid @ '','' @
             [CHR 0x22] @ ''checkSession('' @ Writev_int w cid @ '')'' @ [CHR 0x22] @
             '',60000,true,true,false);'' @
             ''checkSession('' @ Writev_int w cid @ '');</script>'' @
           strSpanCl w"
  using assms by (simp add: Render_def strEmptySpan_def strJsCheckSessOp_def)

theorem Render_script_witness:
  "Render
     \<lparr>strSpanOp = ''<span'', strSpanCl = ''</span>'', strGT = ''>'',
      strScriptOp = ''<script>setupTimer('', strScriptCl = '');</script>'',
      strComma = '','', strQuote = [CHR 0x22], strJsParamCl = '')'' @ [CHR 0x22],
      strParenCl = '')'', strSemicol = '';'',
      Writev_int = (\<lambda>n. if n < 0 then CHR ''-'' # decimal (- n) else decimal n),
      Writev_bool = (\<lambda>b. if b then ''true'' else ''false''),
      renderAttrsAndStyle = '' id='' @ [CHR 0x22] @ ''7'' @ [CHR 0x22],
      renderEHandlers = ''''\<rparr> 7 =
   ''<span id='' @ [CHR 0x22] @ ''7'' @ [CHR 0x22] @ ''><span></span>'' @
   ''<script>setupTimer(7,'' @ [CHR 0x22] @ ''checkSession(7)'' @ [CHR 0x22] @
   '',60000,true,true,false);checkSession(7);</script></span>''"
  using Render_script
    [of "\<lparr>strSpanOp = ''<span'', strSpanCl = ''</span>'', strGT = ''>'',
      strScriptOp = ''<script>setupTimer('', strScriptCl = '');</script>'',
      strComma = '','', strQuote = [CHR 0x22], strJsParamCl = '')'' @ [CHR 0x22],
      strParenCl = '')'', strSemicol = '';'',
      Writev_int = (\<lambda>n. if n < 0 then CHR ''-'' # decimal (- n) else decimal n),
      Writev_bool = (\<lambda>b. if b then ''true'' else ''false''),
      renderAttrsAndStyle = '' id='' @ [CHR 0x22] @ ''7'' @ [CHR 0x22],
      renderEHandlers = ''''\<rparr>" 7]
  by (simp add: decimal_60000 decimal_7)

end
